theory Spec2Isabelle
  imports Main "HOL-Library.Word" "HOL-Library.Sublist" "HOL-Library.Monad_Syntax"
begin

unbundle bit_operations_syntax

section \<open>Build configuration of c-log.h (the defaults of the header)\<close>

definition CLOG_LINE_MAX :: nat where
  "CLOG_LINE_MAX = 1024"

definition CLOG_TIMERS_MAX :: nat where
  "CLOG_TIMERS_MAX = 16"

definition CLOG_TIMER_NS_MAX :: "64 word" where
  "CLOG_TIMER_NS_MAX = 1000"

definition CLOG_TIMER_US_MAX :: "64 word" where
  "CLOG_TIMER_US_MAX = 1000000"

definition CLOG_TIMER_MS_MAX :: "64 word" where
  "CLOG_TIMER_MS_MAX = 1000000000"

text \<open>The UTF-8 micro sign followed by \<open>s\<close>.\<close>

definition CLOG_TIMER_UNIT_US :: string where
  "CLOG_TIMER_UNIT_US = [CHR 0xC2, CHR 0xB5, CHR ''s'']"

definition CLOG_ANSI_RESET :: string where
  "CLOG_ANSI_RESET = CHR 0x1B # ''[0m''"

definition CLOG_FD_STDERR :: int where
  "CLOG_FD_STDERR = 2"

section \<open>Data model\<close>

datatype clog_level = CLOG_TRACE | CLOG_DEBUG | CLOG_INFO | CLOG_WARN | CLOG_ERROR | CLOG_FATAL

definition CLOG_DEFAULT_LEVEL :: clog_level where
  "CLOG_DEFAULT_LEVEL = CLOG_INFO"

text \<open>The integer value of the enumerator, as the cast \<open>(int)lvl\<close> reads it.\<close>

fun level_int :: "clog_level \<Rightarrow> int" where
  "level_int CLOG_TRACE = 0"
| "level_int CLOG_DEBUG = 1"
| "level_int CLOG_INFO = 2"
| "level_int CLOG_WARN = 3"
| "level_int CLOG_ERROR = 4"
| "level_int CLOG_FATAL = 5"

record clog_timer_slot =
  key :: "64 word"
  t0 :: "64 word"
  used :: bool

text \<open>
  What the logger asks of the operating system, in order: taking and releasing the
  process-wide lock, one full write of a byte sequence to a descriptor (the retry loop of
  \<open>clog_write_all_\<close> is one request), and the flush after a fatal record.
\<close>

datatype event = EvLock | EvWrite int string | EvUnlock | EvFsync int

text \<open>
  The state of one thread: the two runtime settings \<open>g_lvl\<close> and \<open>g_fd\<close>, the
  thread-local line buffer \<open>g_buf\<close>, the thread-local timer table \<open>g_timers\<close>, and
  the requests issued so far.
\<close>

record clog_state =
  g_lvl :: int
  g_fd :: int
  g_buf :: string
  g_timers :: "clog_timer_slot list"
  trace :: "event list"

text \<open>
  The external collaborators: the calendar fields of \<open>clog_localtime_parts_\<close>, the
  thread identifier of \<open>clog_tid_\<close>, the environment variable \<open>NO_COLOR\<close>, the
  terminal probe \<open>clog_isatty_fd_\<close>, and the C library's rendering of
  \<open>(double)dt_ns / 1eK\<close> under \<open>%.Pf\<close> (\<open>printf_f P dt_ns K\<close>), which is floating
  point and stays a parameter.
\<close>

record clog_env =
  localtime_parts :: "int \<times> int \<times> int \<times> int \<times> int \<times> int \<times> int"
  tid :: nat
  no_color :: "string option"
  isatty_fd :: "int \<Rightarrow> bool"
  printf_f :: "nat \<Rightarrow> 64 word \<Rightarrow> nat \<Rightarrow> string"

text \<open>
  The two arrays are static: in every state of a running program \<open>g_buf\<close> has
  \<open>CLOG_LINE_MAX\<close> bytes and \<open>g_timers\<close> has \<open>CLOG_TIMERS_MAX\<close> slots. The
  theorems below state this as \<open>length (g_buf st) = CLOG_LINE_MAX\<close> and
  \<open>length (g_timers st) = CLOG_TIMERS_MAX\<close>.
\<close>

section \<open>Rendering of the printf directives the header uses\<close>

text \<open>A C string is the list of its bytes before the terminator.\<close>

definition digit_char :: "nat \<Rightarrow> char" where
  "digit_char d = ''0123456789'' ! d"

fun dec :: "nat \<Rightarrow> string" where
  "dec n = (if n < 10 then [digit_char n] else dec (n div 10) @ [digit_char (n mod 10)])"

declare dec.simps [simp del]

text \<open>\<open>%d\<close>, \<open>%lu\<close> and \<open>%llu\<close>, and \<open>%0wd\<close> (zero padding to width \<open>w\<close>, sign included).\<close>

definition fmt_d :: "int \<Rightarrow> string" where
  "fmt_d i = (if i < 0 then CHR ''-'' # dec (nat (- i)) else dec (nat i))"

definition fmt_lu :: "nat \<Rightarrow> string" where
  "fmt_lu n = dec n"

definition fmt_0d :: "nat \<Rightarrow> int \<Rightarrow> string" where
  "fmt_0d w i =
     (let ds = dec (nat \<bar>i\<bar>); sg = (if i < 0 then ''-'' else [])
      in sg @ replicate (w - length sg - length ds) (CHR ''0'') @ ds)"

text \<open>
  The outcome of formatting a caller's format string with its arguments: the rendered
  bytes (their number is what \<open>vsnprintf\<close> returns, so it fits an \<open>int\<close>), or a
  failure of the C library (a negative return value).
\<close>

datatype fmt_out = Rendered string | FmtError

section \<open>The line buffer\<close>

text \<open>
  Stores and loads are checked: \<open>None\<close> is an access outside the array, which is
  undefined behaviour in C.
\<close>

definition buf_store :: "string \<Rightarrow> nat \<Rightarrow> string \<Rightarrow> string option" where
  "buf_store buf pos bs =
     (if pos + length bs \<le> length buf
      then Some (take pos buf @ bs @ drop (pos + length bs) buf) else None)"

definition buf_load :: "string \<Rightarrow> nat \<Rightarrow> char option" where
  "buf_load buf i = (if i < length buf then Some (buf ! i) else None)"

definition buf_read_n :: "string \<Rightarrow> nat \<Rightarrow> string option" where
  "buf_read_n buf n = (if n \<le> length buf then Some (take n buf) else None)"

text \<open>
  \<open>snprintf(buf + pos, n, ...)\<close>: with \<open>n = 0\<close> nothing is stored; otherwise at most
  \<open>n - 1\<close> bytes and a terminator. The return value is the full rendered length. On a
  failure C does not say what the buffer holds; the model leaves it as it was, and no
  theorem below reads those bytes.
\<close>

definition c_snprintf :: "string \<Rightarrow> nat \<Rightarrow> nat \<Rightarrow> fmt_out \<Rightarrow> (string \<times> int) option" where
  "c_snprintf buf pos n out =
     (case out of
        FmtError \<Rightarrow> Some (buf, - 1)
      | Rendered s \<Rightarrow>
          if n = 0 then Some (buf, int (length s))
          else map_option (\<lambda>b. (b, int (length s)))
                 (buf_store buf pos (take (n - 1) s @ [CHR 0x00])))"

section \<open>Helpers\<close>

fun clog_level_color :: "clog_level \<Rightarrow> string" where
  "clog_level_color CLOG_TRACE = CHR 0x1B # ''[90m''"
| "clog_level_color CLOG_DEBUG = CHR 0x1B # ''[36m''"
| "clog_level_color CLOG_INFO = CHR 0x1B # ''[32m''"
| "clog_level_color CLOG_WARN = CHR 0x1B # ''[33m''"
| "clog_level_color CLOG_ERROR = CHR 0x1B # ''[31m''"
| "clog_level_color CLOG_FATAL = CHR 0x1B # ''[35m''"

definition clog_color_enabled :: "clog_env \<Rightarrow> int \<Rightarrow> bool" where
  "clog_color_enabled env curfd =
     (case no_color env of
        Some (c # cs) \<Rightarrow> False
      | _ \<Rightarrow> isatty_fd env curfd)"

fun clog_level_name :: "clog_level \<Rightarrow> string" where
  "clog_level_name CLOG_TRACE = ''TRACE''"
| "clog_level_name CLOG_DEBUG = ''DEBUG''"
| "clog_level_name CLOG_INFO = ''INFO''"
| "clog_level_name CLOG_WARN = ''WARN''"
| "clog_level_name CLOG_ERROR = ''ERROR''"
| "clog_level_name CLOG_FATAL = ''FATAL''"

text \<open>The loop of \<open>clog_basename_\<close>: \<open>s\<close> is what is left to scan, \<open>b\<close> the candidate.\<close>

fun clog_basename_loop :: "string \<Rightarrow> string \<Rightarrow> string" where
  "clog_basename_loop [] b = b"
| "clog_basename_loop (c # s) b =
     (if c = CHR ''/'' \<or> c = CHR 0x5C then clog_basename_loop s s else clog_basename_loop s b)"

definition clog_basename :: "string \<Rightarrow> string" where
  "clog_basename p = clog_basename_loop p p"

definition clog_hash64 :: "string \<Rightarrow> 64 word" where
  "clog_hash64 s = fold (\<lambda>c h. (h XOR of_char c) * 1099511628211) s 1469598103934665603"

section \<open>Prefix composer\<close>

text \<open>
  The macro \<open>CLOG_APPEND\<close> on the cursor \<open>(dst, pos)\<close>, with the directive already
  rendered to \<open>text\<close>.
\<close>

definition CLOG_APPEND :: "nat \<Rightarrow> string \<Rightarrow> string \<times> nat \<Rightarrow> (string \<times> nat) option" where
  "CLOG_APPEND cap text dp =
     (case dp of (dst, pos) \<Rightarrow>
        if pos < cap then
          (let avail = cap - pos in
           case c_snprintf dst pos avail (Rendered text) of
             None \<Rightarrow> None
           | Some (dst', r) \<Rightarrow>
               if r > 0 then
                 (let rr = nat r in
                  Some (dst', pos + (if rr < avail then rr else (if avail \<noteq> 0 then avail - 1 else 0))))
               else Some (dst', pos))
        else Some (dst, pos))"

definition timestamp_text :: "clog_env \<Rightarrow> string" where
  "timestamp_text env =
     (case localtime_parts env of (Y, m, d, H, M, S, ms) \<Rightarrow>
        fmt_0d 4 Y @ ''-'' @ fmt_0d 2 m @ ''-'' @ fmt_0d 2 d @ '' '' @
        fmt_0d 2 H @ '':'' @ fmt_0d 2 M @ '':'' @ fmt_0d 2 S @ ''.'' @ fmt_0d 3 ms @ '' '')"

definition level_text :: "clog_env \<Rightarrow> int \<Rightarrow> clog_level \<Rightarrow> string" where
  "level_text env curfd lvl =
     (if clog_color_enabled env curfd
      then ''['' @ clog_level_color lvl @ clog_level_name lvl @ CLOG_ANSI_RESET @ '']'' @ [CHR 0x09]
      else ''['' @ clog_level_name lvl @ '']'' @ [CHR 0x09])"

definition tid_text :: "clog_env \<Rightarrow> string" where
  "tid_text env = ''(tid:'' @ fmt_lu (tid env) @ '') ''"

definition site_text :: "string \<Rightarrow> int \<Rightarrow> string" where
  "site_text file line = ''<'' @ clog_basename file @ '':'' @ fmt_d line @ ''> ''"

definition group_text :: "string \<Rightarrow> string" where
  "group_text g = ''['' @ g @ ''] ''"

definition clog_write_prefix ::
  "clog_env \<Rightarrow> int \<Rightarrow> string \<Rightarrow> nat \<Rightarrow> clog_level \<Rightarrow> string \<Rightarrow> int \<Rightarrow> string option
     \<Rightarrow> (string \<times> nat) option" where
  "clog_write_prefix env curfd dst cap lvl file line grp =
     do {
       a1 \<leftarrow> CLOG_APPEND cap (timestamp_text env) (dst, 0);
       a2 \<leftarrow> CLOG_APPEND cap (level_text env curfd lvl) a1;
       a3 \<leftarrow> CLOG_APPEND cap (tid_text env) a2;
       a4 \<leftarrow> CLOG_APPEND cap (site_text file line) a3;
       a5 \<leftarrow> (case grp of
                Some (g # gs) \<Rightarrow> CLOG_APPEND cap (group_text (g # gs)) a4
              | _ \<Rightarrow> Some a4);
       Some (fst a5, if snd a5 \<ge> cap then cap else snd a5)
     }"

section \<open>Emission gate and record formatter\<close>

definition clog_write_all :: "int \<Rightarrow> string \<Rightarrow> event list" where
  "clog_write_all fd bytes = (if bytes = [] then [] else [EvWrite fd bytes])"

text \<open>The message step of \<open>clog_emit_\<close>: the cursor after \<open>vsnprintf\<close>, and \<open>truncated\<close>.\<close>

definition emit_message :: "string \<Rightarrow> nat \<Rightarrow> nat \<Rightarrow> fmt_out \<Rightarrow> (string \<times> nat \<times> bool) option" where
  "emit_message buf cap off msg =
     (if off < cap then
        (let avail = cap - off in
         case c_snprintf buf off avail msg of
           None \<Rightarrow> None
         | Some (buf', n) \<Rightarrow>
             if n > 0 then
               (let nn = nat n in
                if nn \<ge> avail then Some (buf', cap - 1, True)
                else Some (buf', off + nn, False))
             else Some (buf', off, False))
      else Some (buf, off, False))"

text \<open>The truncation-marker step.\<close>

definition emit_marker :: "string \<Rightarrow> nat \<Rightarrow> nat \<Rightarrow> bool \<Rightarrow> (string \<times> nat) option" where
  "emit_marker buf cap off truncated =
     (let mlen = 3 in
      if truncated \<and> off + mlen < cap
      then map_option (\<lambda>b. (b, off + mlen)) (buf_store buf off ''...'')
      else Some (buf, off))"

text \<open>The newline step.\<close>

definition emit_newline :: "string \<Rightarrow> nat \<Rightarrow> nat \<Rightarrow> (string \<times> nat) option" where
  "emit_newline buf cap off =
     do {
       need \<leftarrow> (if off = 0 then Some True
                else map_option (\<lambda>c. c \<noteq> CHR 0x0A) (buf_load buf (off - 1)));
       if need then
         (if off + 1 < cap then
            do {
              b1 \<leftarrow> buf_store buf off [CHR 0x0A];
              b2 \<leftarrow> buf_store b1 (off + 1) [CHR 0x00];
              Some (b2, off + 1)
            }
          else
            do {
              b1 \<leftarrow> buf_store buf (cap - 2) [CHR 0x0A];
              b2 \<leftarrow> buf_store b1 (cap - 1) [CHR 0x00];
              Some (b2, cap - 1)
            })
       else Some (buf, off)
     }"

definition clog_emit ::
  "clog_env \<Rightarrow> clog_level \<Rightarrow> string \<Rightarrow> int \<Rightarrow> string option \<Rightarrow> fmt_out \<Rightarrow> clog_state
     \<Rightarrow> clog_state option" where
  "clog_emit env lvl file line grp msg st =
     (if level_int lvl < g_lvl st then Some st
      else
        do {
          let fd = g_fd st;
          let cap = CLOG_LINE_MAX;
          (buf1, off1) \<leftarrow> clog_write_prefix env (g_fd st) (g_buf st) cap lvl file line grp;
          (buf2, off2, truncated) \<leftarrow> emit_message buf1 cap off1 msg;
          (buf3, off3) \<leftarrow> emit_marker buf2 cap off2 truncated;
          (buf4, off4) \<leftarrow> emit_newline buf3 cap off3;
          bytes \<leftarrow> buf_read_n buf4 off4;
          Some (st\<lparr>g_buf := buf4,
                  trace := trace st @ [EvLock] @ clog_write_all fd bytes @ [EvUnlock]
                             @ (if lvl = CLOG_FATAL then [EvFsync fd] else [])\<rparr>)
        })"

definition clog_set_level :: "clog_level \<Rightarrow> clog_state \<Rightarrow> clog_state" where
  "clog_set_level lvl st = st\<lparr>g_lvl := level_int lvl\<rparr>"

definition clog_set_fd :: "int \<Rightarrow> clog_state \<Rightarrow> clog_state" where
  "clog_set_fd fd st = st\<lparr>g_fd := fd\<rparr>"

definition clog_vlog_file_line ::
  "clog_env \<Rightarrow> clog_level \<Rightarrow> string \<Rightarrow> int \<Rightarrow> string option \<Rightarrow> fmt_out \<Rightarrow> clog_state
     \<Rightarrow> clog_state option" where
  "clog_vlog_file_line env lvl file line grp msg st = clog_emit env lvl file line grp msg st"

definition clog_log_file_line ::
  "clog_env \<Rightarrow> clog_level \<Rightarrow> string \<Rightarrow> int \<Rightarrow> string option \<Rightarrow> fmt_out \<Rightarrow> clog_state
     \<Rightarrow> clog_state option" where
  "clog_log_file_line env lvl file line grp msg st =
     clog_vlog_file_line env lvl file line grp msg st"


section \<open>Timer table\<close>

text \<open>
  The scan loops of \<open>clog_timer_find_slot_\<close> and \<open>clog_timer_free_slot_\<close>, from
  index \<open>i\<close>; \<open>- 1\<close> when the scan falls off the table.
\<close>

function clog_timer_find_slot_loop :: "clog_timer_slot list \<Rightarrow> 64 word \<Rightarrow> nat \<Rightarrow> int" where
  "clog_timer_find_slot_loop ts k i =
     (if i < CLOG_TIMERS_MAX then
        (if used (ts ! i) \<and> key (ts ! i) = k then int i
         else clog_timer_find_slot_loop ts k (i + 1))
      else - 1)"
  by pat_completeness auto
termination
  by (relation "measure (\<lambda>(ts, k, i). CLOG_TIMERS_MAX - i)") auto

declare clog_timer_find_slot_loop.simps [simp del]

function clog_timer_free_slot_loop :: "clog_timer_slot list \<Rightarrow> nat \<Rightarrow> int" where
  "clog_timer_free_slot_loop ts i =
     (if i < CLOG_TIMERS_MAX then
        (if \<not> used (ts ! i) then int i else clog_timer_free_slot_loop ts (i + 1))
      else - 1)"
  by pat_completeness auto
termination
  by (relation "measure (\<lambda>(ts, i). CLOG_TIMERS_MAX - i)") auto

declare clog_timer_free_slot_loop.simps [simp del]

definition clog_timer_find_slot :: "clog_state \<Rightarrow> 64 word \<Rightarrow> int" where
  "clog_timer_find_slot st k = clog_timer_find_slot_loop (g_timers st) k 0"

definition clog_timer_free_slot :: "clog_state \<Rightarrow> int" where
  "clog_timer_free_slot st = clog_timer_free_slot_loop (g_timers st) 0"

text \<open>
  \<open>now\<close> is the reading of \<open>clog_now_ns_mono_\<close> that the call takes when it reaches
  the clock.
\<close>

definition clogp_timer_start ::
  "clog_env \<Rightarrow> 64 word \<Rightarrow> string \<Rightarrow> int \<Rightarrow> string \<Rightarrow> clog_state \<Rightarrow> clog_state option" where
  "clogp_timer_start env now file line label st =
     (let k = clog_hash64 label;
          idx0 = clog_timer_find_slot st k;
          idx = (if idx0 < 0 then clog_timer_free_slot st else idx0)
      in if idx \<ge> 0 then
           Some (st\<lparr>g_timers :=
                    (g_timers st)[nat idx := (g_timers st ! nat idx)\<lparr>key := k, t0 := now, used := True\<rparr>]\<rparr>)
         else
           clog_log_file_line env CLOG_WARN file line (Some ''timer'')
             (Rendered (''no free timer slots (CLOG_TIMERS_MAX='' @ fmt_d (int CLOG_TIMERS_MAX) @ '')''))
             st)"

definition clogp_timer_end ::
  "clog_env \<Rightarrow> 64 word \<Rightarrow> string \<Rightarrow> int \<Rightarrow> string \<Rightarrow> clog_state \<Rightarrow> clog_state option" where
  "clogp_timer_end env now file line label st =
     (let k = clog_hash64 label;
          idx = clog_timer_find_slot st k
      in if idx < 0 then
           clog_log_file_line env CLOG_WARN file line (Some ''timer'')
             (Rendered (''end_time for unknown label: '' @ label)) st
         else
           (let dt_ns = now - t0 (g_timers st ! nat idx);
                st1 = st\<lparr>g_timers := (g_timers st)[nat idx := (g_timers st ! nat idx)\<lparr>used := False\<rparr>]\<rparr>
            in if dt_ns < CLOG_TIMER_NS_MAX then
                 clog_log_file_line env CLOG_DEBUG file line (Some ''timer'')
                   (Rendered (''['' @ fmt_lu (unat dt_ns) @ '' ns]: '' @ label)) st1
               else if dt_ns < CLOG_TIMER_US_MAX then
                 clog_log_file_line env CLOG_DEBUG file line (Some ''timer'')
                   (Rendered (''['' @ printf_f env 3 dt_ns 3 @ '' '' @ CLOG_TIMER_UNIT_US @ '']: '' @ label)) st1
               else if dt_ns < CLOG_TIMER_MS_MAX then
                 clog_log_file_line env CLOG_DEBUG file line (Some ''timer'')
                   (Rendered (''['' @ printf_f env 3 dt_ns 6 @ '' ms]: '' @ label)) st1
               else
                 clog_log_file_line env CLOG_DEBUG file line (Some ''timer'')
                   (Rendered (''['' @ printf_f env 6 dt_ns 9 @ '' s]: '' @ label)) st1))"

section \<open>Initial state and a sample environment\<close>

text \<open>
  The static storage of the header at process start: the threshold is
  \<open>CLOG_DEFAULT_LEVEL\<close>, the descriptor \<open>CLOG_FD_STDERR\<close>, the buffer and the timer
  table are zero-initialised.
\<close>

definition clog_init_state :: clog_state where
  "clog_init_state =
     \<lparr>g_lvl = level_int CLOG_DEFAULT_LEVEL, g_fd = CLOG_FD_STDERR,
      g_buf = replicate CLOG_LINE_MAX (CHR 0x00),
      g_timers = replicate CLOG_TIMERS_MAX \<lparr>key = 0, t0 = 0, used = False\<rparr>,
      trace = []\<rparr>"

text \<open>
  A stand-in for the C library's \<open>%.Pf\<close> in the sample environment: the exact quotient
  \<open>dt / 10^K\<close> rounded half up to \<open>P\<close> decimals.
\<close>

definition sample_printf_f :: "nat \<Rightarrow> 64 word \<Rightarrow> nat \<Rightarrow> string" where
  "sample_printf_f p dt k =
     (let N = (unat dt * 10 ^ p + 10 ^ k div 2) div 10 ^ k
      in dec (N div 10 ^ p) @ ''.'' @ fmt_0d p (int (N mod 10 ^ p)))"

definition sample_env :: clog_env where
  "sample_env =
     \<lparr>localtime_parts = (2025, 3, 9, 14, 5, 7, 42), tid = 4242, no_color = Some ''1'',
      isatty_fd = (\<lambda>fd. False), printf_f = sample_printf_f\<rparr>"

text \<open>
  The initial state after one \<open>clog_start_time(label)\<close> at time \<open>t\<close>, and a state
  whose sixteen slots are taken by the labels \<open>a\<close> to \<open>p\<close>.
\<close>

definition sample_started_state :: "string \<Rightarrow> 64 word \<Rightarrow> clog_state" where
  "sample_started_state label t =
     clog_init_state\<lparr>g_timers :=
       (g_timers clog_init_state)[0 := \<lparr>key = clog_hash64 label, t0 = t, used = True\<rparr>]\<rparr>"

definition sample_full_state :: clog_state where
  "sample_full_state =
     clog_init_state\<lparr>g_timers :=
       map (\<lambda>c. \<lparr>key = clog_hash64 [c], t0 = 0, used = True\<rparr>) ''abcdefghijklmnop''\<rparr>"

section \<open>What a record looks like\<close>

text \<open>The bytes of a rendered message; a failed formatting contributes none.\<close>

definition msg_text :: "fmt_out \<Rightarrow> string" where
  "msg_text out = (case out of Rendered s \<Rightarrow> s | FmtError \<Rightarrow> [])"

text \<open>The prefix fields in the order \<open>clog_write_prefix_\<close> appends them.\<close>

definition prefix_text ::
  "clog_env \<Rightarrow> int \<Rightarrow> clog_level \<Rightarrow> string \<Rightarrow> int \<Rightarrow> string option \<Rightarrow> string" where
  "prefix_text env curfd lvl file line grp =
     timestamp_text env @ level_text env curfd lvl @ tid_text env @ site_text file line @
     (case grp of Some (g # gs) \<Rightarrow> group_text (g # gs) | _ \<Rightarrow> [])"

text \<open>
  Newline normalisation as the specification words it: content that ends in a newline is
  left alone, otherwise a newline is appended, and in a full buffer it replaces the last
  content byte.
\<close>

definition normalise_newline :: "nat \<Rightarrow> string \<Rightarrow> string" where
  "normalise_newline cap c =
     (if c \<noteq> [] \<and> last c = CHR 0x0A then c
      else if length c + 1 < cap then c @ [CHR 0x0A]
      else take (cap - 2) c @ [CHR 0x0A])"

definition emitted_line ::
  "clog_env \<Rightarrow> int \<Rightarrow> clog_level \<Rightarrow> string \<Rightarrow> int \<Rightarrow> string option \<Rightarrow> fmt_out \<Rightarrow> string" where
  "emitted_line env curfd lvl file line grp msg =
     normalise_newline CLOG_LINE_MAX
       (take (CLOG_LINE_MAX - 1) (prefix_text env curfd lvl file line grp @ msg_text msg))"

text \<open>
  The timer report as the specification words it: \<open>[UNIT]: label\<close>, the unit chosen by
  the three boundaries.
\<close>

definition timer_report :: "clog_env \<Rightarrow> 64 word \<Rightarrow> string \<Rightarrow> string" where
  "timer_report env dt label =
     ''['' @
     (if unat dt < 1000 then dec (unat dt) @ '' ns''
      else if unat dt < 1000000 then printf_f env 3 dt 3 @ '' '' @ [CHR 0xC2, CHR 0xB5, CHR ''s'']
      else if unat dt < 1000000000 then printf_f env 3 dt 6 @ '' ms''
      else printf_f env 6 dt 9 @ '' s'')
     @ '']: '' @ label"


text \<open>
  A byte sequence ends with exactly one newline: its last byte is a newline and the byte
  before it, if there is one, is not.
\<close>

definition ends_with_one_newline :: "string \<Rightarrow> bool" where
  "ends_with_one_newline bs \<longleftrightarrow>
     bs \<noteq> [] \<and> last bs = CHR 0x0A \<and> (butlast bs = [] \<or> last (butlast bs) \<noteq> CHR 0x0A)"

section \<open>The composition pipeline, step by step\<close>

lemma buf_store_Some:
  "pos + length bs \<le> length buf \<Longrightarrow>
   buf_store buf pos bs = Some (take pos buf @ bs @ drop (pos + length bs) buf)"
  by (simp add: buf_store_def)

lemma CLOG_APPEND_ok:
  assumes len: "length dst = cap" and pos: "pos < cap"
  shows "\<exists>dst' pos'. CLOG_APPEND cap s (dst, pos) = Some (dst', pos') \<and> length dst' = cap \<and>
           pos' < cap \<and> dst' ! pos' = CHR 0x00 \<and>
           take pos' dst' = take (cap - 1) (take pos dst @ s)"
proof -
  define k where "k = min (length s) (cap - pos - 1)"
  define dst' where "dst' = take pos dst @ (take (cap - pos - 1) s @ [CHR 0x00]) @ drop (pos + (k + 1)) dst"
  have k: "pos + k < cap" using pos by (simp add: k_def)
  have lk: "length (take (cap - pos - 1) s @ [CHR 0x00]) = k + 1"
    by (simp add: k_def min.commute)
  have st: "buf_store dst pos (take (cap - pos - 1) s @ [CHR 0x00]) = Some dst'"
    unfolding dst'_def using buf_store_Some [of pos "take (cap - pos - 1) s @ [CHR 0x00]" dst] k len lk
    by simp
  have app: "CLOG_APPEND cap s (dst, pos) = Some (dst', pos + k)"
    using pos st by (auto simp: CLOG_APPEND_def c_snprintf_def Let_def k_def)
  have l': "length dst' = cap"
    using k len by (simp add: dst'_def k_def)
  have lt: "length (take pos dst) = pos" using len pos by simp
  have ltk: "length (take (cap - pos - 1) s) = k" by (simp add: k_def min.commute)
  have nul: "dst' ! (pos + k) = CHR 0x00"
    unfolding dst'_def using lt ltk by (simp add: nth_append)
  have tk: "take (pos + k) dst' = take pos dst @ take (cap - pos - 1) s"
  proof -
    have "take (pos + k) dst' = take pos dst @ take k (take (cap - pos - 1) s @ [CHR 0x00] @ drop (pos + (k + 1)) dst)"
      unfolding dst'_def using lt by simp
    also have "take k (take (cap - pos - 1) s @ [CHR 0x00] @ drop (pos + (k + 1)) dst) = take (cap - pos - 1) s"
      using ltk by (metis append_eq_conv_conj)
    finally show ?thesis .
  qed
  have "take (cap - 1) (take pos dst @ s) = take pos dst @ take (cap - pos - 1) s"
    using lt pos by simp
  with app l' k nul tk show ?thesis by auto
qed


lemma take_take_append: "take n (take n xs @ ys) = take n (xs @ ys)"
  by (cases "n \<le> length xs") (simp_all add: min_def)

lemma clog_write_prefix_ok:
  assumes len: "length dst = cap" and cap: "0 < cap"
  shows "\<exists>dst' pos'. clog_write_prefix env curfd dst cap lvl file line grp = Some (dst', pos') \<and>
           length dst' = cap \<and> pos' < cap \<and> dst' ! pos' = CHR 0x00 \<and>
           take pos' dst' = take (cap - 1) (prefix_text env curfd lvl file line grp)"
proof -
  obtain d1 p1 where a1: "CLOG_APPEND cap (timestamp_text env) (dst, 0) = Some (d1, p1)"
    and i1: "length d1 = cap" "p1 < cap" "d1 ! p1 = CHR 0x00"
    and t1: "take p1 d1 = take (cap - 1) (timestamp_text env)"
    using CLOG_APPEND_ok [OF len cap, of "timestamp_text env"] by auto
  obtain d2 p2 where a2: "CLOG_APPEND cap (level_text env curfd lvl) (d1, p1) = Some (d2, p2)"
    and i2: "length d2 = cap" "p2 < cap" "d2 ! p2 = CHR 0x00"
    and t2: "take p2 d2 = take (cap - 1) (take p1 d1 @ level_text env curfd lvl)"
    using CLOG_APPEND_ok [OF i1(1) i1(2), of "level_text env curfd lvl"] by auto
  obtain d3 p3 where a3: "CLOG_APPEND cap (tid_text env) (d2, p2) = Some (d3, p3)"
    and i3: "length d3 = cap" "p3 < cap" "d3 ! p3 = CHR 0x00"
    and t3: "take p3 d3 = take (cap - 1) (take p2 d2 @ tid_text env)"
    using CLOG_APPEND_ok [OF i2(1) i2(2), of "tid_text env"] by auto
  obtain d4 p4 where a4: "CLOG_APPEND cap (site_text file line) (d3, p3) = Some (d4, p4)"
    and i4: "length d4 = cap" "p4 < cap" "d4 ! p4 = CHR 0x00"
    and t4: "take p4 d4 = take (cap - 1) (take p3 d3 @ site_text file line)"
    using CLOG_APPEND_ok [OF i3(1) i3(2), of "site_text file line"] by auto
  define T4 where "T4 = timestamp_text env @ level_text env curfd lvl @ tid_text env @ site_text file line"
  have c4: "take p4 d4 = take (cap - 1) T4"
    unfolding T4_def by (simp only: t4 t3 t2 t1 take_take_append append_assoc)
  show ?thesis
  proof (cases "\<exists>g gs. grp = Some (g # gs)")
    case True
    then obtain g gs where grp: "grp = Some (g # gs)" by auto
    obtain d5 p5 where a5: "CLOG_APPEND cap (group_text (g # gs)) (d4, p4) = Some (d5, p5)"
      and i5: "length d5 = cap" "p5 < cap" "d5 ! p5 = CHR 0x00"
      and t5: "take p5 d5 = take (cap - 1) (take p4 d4 @ group_text (g # gs))"
      using CLOG_APPEND_ok [OF i4(1) i4(2), of "group_text (g # gs)"] by auto
    have "clog_write_prefix env curfd dst cap lvl file line grp = Some (d5, p5)"
      using a1 a2 a3 a4 a5 i5 grp by (simp add: clog_write_prefix_def)
    moreover have "take p5 d5 = take (cap - 1) (prefix_text env curfd lvl file line grp)"
      using grp by (simp only: t5 c4 prefix_text_def T4_def take_take_append append_assoc option.case list.case)
    ultimately show ?thesis using i5 by auto
  next
    case False
    then have g: "(case grp of Some (g # gs) \<Rightarrow> CLOG_APPEND cap (group_text (g # gs)) (d4, p4) | _ \<Rightarrow> Some (d4, p4)) = Some (d4, p4)"
      by (auto split: option.splits list.splits)
    from False have g': "(case grp of Some (g # gs) \<Rightarrow> group_text (g # gs) | _ \<Rightarrow> []) = []"
      by (auto split: option.splits list.splits)
    have "clog_write_prefix env curfd dst cap lvl file line grp = Some (d4, p4)"
      using a1 a2 a3 a4 g i4 by (simp add: clog_write_prefix_def)
    moreover have "take p4 d4 = take (cap - 1) (prefix_text env curfd lvl file line grp)"
      using g' by (simp only: c4 prefix_text_def T4_def append_Nil2)
    ultimately show ?thesis using i4 by auto
  qed
qed

lemma emit_message_ok:
  assumes len: "length buf = cap" and off: "off < cap" and nul: "buf ! off = CHR 0x00"
  shows "\<exists>buf' off' tr. emit_message buf cap off msg = Some (buf', off', tr) \<and>
           length buf' = cap \<and> off' < cap \<and> buf' ! off' = CHR 0x00 \<and>
           take off' buf' = take (cap - 1) (take off buf @ msg_text msg) \<and>
           (tr \<longleftrightarrow> (\<exists>s. msg = Rendered s \<and> cap - off \<le> length s)) \<and>
           (tr \<longrightarrow> off' = cap - 1)"
proof (cases msg)
  case FmtError
  have "take off buf = take (cap - 1) (take off buf)" using off by simp
  moreover have "emit_message buf cap off msg = Some (buf, off, False)"
    using FmtError off by (simp add: emit_message_def c_snprintf_def)
  ultimately show ?thesis using FmtError len off nul
    by (auto simp: msg_text_def)
next
  case (Rendered s)
  obtain d p where a: "CLOG_APPEND cap s (buf, off) = Some (d, p)"
    and i: "length d = cap" "p < cap" "d ! p = CHR 0x00"
    and t: "take p d = take (cap - 1) (take off buf @ s)"
    using CLOG_APPEND_ok [OF len off, of s] by auto
  from a off obtain r where sn: "c_snprintf buf off (cap - off) (Rendered s) = Some (d, r)"
    and r: "r = int (length s)"
    and p: "p = (if r > 0 then off + (if nat r < cap - off then nat r else cap - off - 1) else off)"
    by (auto simp: CLOG_APPEND_def c_snprintf_def Let_def split: option.splits if_splits)
  show ?thesis
  proof (cases "cap - off \<le> length s")
    case True
    then have "p = cap - 1" using p r off by auto
    moreover have "emit_message buf cap off msg = Some (d, cap - 1, True)"
      using True sn r off Rendered by (auto simp: emit_message_def Let_def)
    ultimately show ?thesis using i t True Rendered by (auto simp: msg_text_def)
  next
    case False
    then have "p = off + length s" using p r off by auto
    moreover have "emit_message buf cap off msg = Some (d, off + length s, False)"
      using False sn r off Rendered by (auto simp: emit_message_def Let_def)
    ultimately show ?thesis using i t False Rendered by (auto simp: msg_text_def)
  qed
qed

lemma emit_marker_never:
  assumes "tr \<longrightarrow> off = cap - 1" and "0 < cap"
  shows "emit_marker buf cap off tr = Some (buf, off)"
  using assms by (auto simp: emit_marker_def)


lemma emit_newline_ok:
  assumes len: "length buf = cap" and off: "off < cap" and nul: "buf ! off = CHR 0x00"
    and cap: "2 \<le> cap"
  shows "\<exists>buf' off'. emit_newline buf cap off = Some (buf', off') \<and>
           length buf' = cap \<and> off' < cap \<and> buf' ! off' = CHR 0x00 \<and>
           take off' buf' = normalise_newline cap (take off buf)"
proof -
  have lc: "length (take off buf) = off" using len off by simp
  have lastc: "last (take off buf) = buf ! (off - 1)" if "off \<noteq> 0"
  proof -
    have "take off buf \<noteq> []" using that lc by auto
    then have "last (take off buf) = take off buf ! (length (take off buf) - 1)"
      by (rule last_conv_nth)
    also have "\<dots> = take off buf ! (off - 1)" using lc by simp
    also have "\<dots> = buf ! (off - 1)" using that by simp
    finally show ?thesis .
  qed
  have ld: "off \<noteq> 0 \<Longrightarrow> buf_load buf (off - 1) = Some (buf ! (off - 1))"
    using len off by (simp add: buf_load_def)
  show ?thesis
  proof (cases "off \<noteq> 0 \<and> buf ! (off - 1) = CHR 0x0A")
    case True
    then have "emit_newline buf cap off = Some (buf, off)"
      using ld by (simp add: emit_newline_def)
    moreover have "normalise_newline cap (take off buf) = take off buf"
      using True lastc lc by (auto simp: normalise_newline_def)
    ultimately show ?thesis using len off nul by simp
  next
    case False
    then have need: "(if off = 0 then Some True
                else map_option (\<lambda>c. c \<noteq> CHR 0x0A) (buf_load buf (off - 1))) = Some True"
      using ld by auto
    have nonl: "\<not> (take off buf \<noteq> [] \<and> last (take off buf) = CHR 0x0A)"
      using False lastc lc by auto
    show ?thesis
    proof (cases "off + 1 < cap")
      case True
      define b1 where "b1 = take off buf @ [CHR 0x0A] @ drop (off + 1) buf"
      define b2 where "b2 = take (off + 1) b1 @ [CHR 0x00] @ drop (off + 2) b1"
      have s1: "buf_store buf off [CHR 0x0A] = Some b1"
        using True len by (simp add: buf_store_def b1_def)
      have l1: "length b1 = cap" using True len by (simp add: b1_def)
      have s2: "buf_store b1 (off + 1) [CHR 0x00] = Some b2"
        using True l1 by (simp add: buf_store_def b2_def)
      have l2: "length b2 = cap" using True l1 by (simp add: b2_def)
      have t1: "take (off + 1) b1 = take off buf @ [CHR 0x0A]"
        using lc by (simp add: b1_def)
      have n2: "b2 ! (off + 1) = CHR 0x00"
        unfolding b2_def t1 using lc by (simp add: nth_append)
      have t2: "take (off + 1) b2 = take off buf @ [CHR 0x0A]"
        unfolding b2_def t1 using lc by simp
      have "emit_newline buf cap off = Some (b2, off + 1)"
        using need True s1 s2 by (simp add: emit_newline_def)
      moreover have "normalise_newline cap (take off buf) = take off buf @ [CHR 0x0A]"
        using nonl True lc by (simp add: normalise_newline_def)
      ultimately show ?thesis using l2 True n2 t2 by simp
    next
      case F2: False
      then have offc: "off = cap - 1" using off by simp
      define b1 where "b1 = take (cap - 2) buf @ [CHR 0x0A] @ drop (cap - 1) buf"
      define b2 where "b2 = take (cap - 1) b1 @ [CHR 0x00] @ drop cap b1"
      have c21: "cap - 2 + 1 = cap - 1" using cap by simp
      have s1: "buf_store buf (cap - 2) [CHR 0x0A] = Some b1"
        using cap len c21 by (simp add: buf_store_def b1_def)
      have l1: "length b1 = cap" using cap len by (simp add: b1_def)
      have s2: "buf_store b1 (cap - 1) [CHR 0x00] = Some b2"
        using cap l1 by (simp add: buf_store_def b2_def)
      have l2: "length b2 = cap" using cap l1 by (simp add: b2_def)
      have lt: "length (take (cap - 2) buf) = cap - 2" using len by simp
      have t1: "take (cap - 1) b1 = take (cap - 2) buf @ [CHR 0x0A]"
      proof -
        have "take (cap - 2 + 1) b1 = take (cap - 2) buf @ [CHR 0x0A]"
          unfolding b1_def using lt by simp
        then show ?thesis using c21 by simp
      qed
      have lt1: "length (take (cap - 1) b1) = cap - 1" using l1 by simp
      have n2: "b2 ! (cap - 1) = CHR 0x00"
        unfolding b2_def using lt1 by (metis nth_append_length append_Cons)
      have t2: "take (cap - 1) b2 = take (cap - 2) buf @ [CHR 0x0A]"
        unfolding b2_def using lt1 t1 by (metis append_eq_conv_conj)
      have "emit_newline buf cap off = Some (b2, cap - 1)"
        using need F2 s1 s2 by (simp add: emit_newline_def)
      moreover have "normalise_newline cap (take off buf) = take (cap - 2) buf @ [CHR 0x0A]"
      proof -
        have "take (cap - 2) (take off buf) = take (cap - 2) buf"
          using offc cap by (simp add: min_def)
        moreover have "normalise_newline cap (take off buf) = take (cap - 2) (take off buf) @ [CHR 0x0A]"
          using nonl F2 lc by (auto simp: normalise_newline_def)
        ultimately show ?thesis by simp
      qed
      ultimately show ?thesis using l2 cap n2 t2 by simp
    qed
  qed
qed

lemma normalise_newline_nonempty: "normalise_newline cap c \<noteq> []"
  by (auto simp: normalise_newline_def)

lemma clog_emit_enabled:
  assumes len: "length (g_buf st) = CLOG_LINE_MAX" and lvl: "g_lvl st \<le> level_int lvl"
  shows "\<exists>buf. length buf = CLOG_LINE_MAX \<and>
           buf ! length (emitted_line env (g_fd st) lvl file line grp msg) = CHR 0x00 \<and>
           take (length (emitted_line env (g_fd st) lvl file line grp msg)) buf =
             emitted_line env (g_fd st) lvl file line grp msg \<and>
           length (emitted_line env (g_fd st) lvl file line grp msg) < CLOG_LINE_MAX \<and>
           clog_emit env lvl file line grp msg st =
             Some (st\<lparr>g_buf := buf,
                      trace := trace st @ [EvLock,
                                 EvWrite (g_fd st) (emitted_line env (g_fd st) lvl file line grp msg),
                                 EvUnlock]
                               @ (if lvl = CLOG_FATAL then [EvFsync (g_fd st)] else [])\<rparr>)"
proof -
  define cap where "cap = CLOG_LINE_MAX"
  have cap2: "2 \<le> cap" and cap0: "0 < cap" by (simp_all add: cap_def CLOG_LINE_MAX_def)
  have len': "length (g_buf st) = cap" using len by (simp add: cap_def)
  obtain b1 o1 where p: "clog_write_prefix env (g_fd st) (g_buf st) cap lvl file line grp = Some (b1, o1)"
    and i1: "length b1 = cap" "o1 < cap" "b1 ! o1 = CHR 0x00"
    and t1: "take o1 b1 = take (cap - 1) (prefix_text env (g_fd st) lvl file line grp)"
    using clog_write_prefix_ok [OF len' cap0] by blast
  obtain b2 o2 tr where m: "emit_message b1 cap o1 msg = Some (b2, o2, tr)"
    and i2: "length b2 = cap" "o2 < cap" "b2 ! o2 = CHR 0x00"
    and t2: "take o2 b2 = take (cap - 1) (take o1 b1 @ msg_text msg)"
    and tr: "tr \<longrightarrow> o2 = cap - 1"
    using emit_message_ok [OF i1, of msg] by blast
  have k: "emit_marker b2 cap o2 tr = Some (b2, o2)"
    using emit_marker_never [OF tr cap0] .
  obtain b4 o4 where n: "emit_newline b2 cap o2 = Some (b4, o4)"
    and i4: "length b4 = cap" "o4 < cap" "b4 ! o4 = CHR 0x00"
    and t4: "take o4 b4 = normalise_newline cap (take o2 b2)"
    using emit_newline_ok [OF i2 cap2] by blast
  have e: "take o4 b4 = emitted_line env (g_fd st) lvl file line grp msg"
    unfolding emitted_line_def t4 t2 t1 cap_def [symmetric] by (simp only: take_take_append)
  have lo: "length (take o4 b4) = o4" using i4 by simp
  have ne: "take o4 b4 \<noteq> []" unfolding t4 by (rule normalise_newline_nonempty)
  have rd: "buf_read_n b4 o4 = Some (take o4 b4)" using i4 by (simp add: buf_read_n_def)
  have "clog_emit env lvl file line grp msg st =
          Some (st\<lparr>g_buf := b4,
                   trace := trace st @ [EvLock] @ clog_write_all (g_fd st) (take o4 b4) @ [EvUnlock]
                             @ (if lvl = CLOG_FATAL then [EvFsync (g_fd st)] else [])\<rparr>)"
    using lvl p m k n rd by (simp add: clog_emit_def cap_def [symmetric] Let_def)
  moreover have "length (emitted_line env (g_fd st) lvl file line grp msg) = o4"
    using lo e by simp
  ultimately show ?thesis
    using i4 ne e by (auto simp: clog_write_all_def cap_def intro!: exI [of _ b4])
qed



lemma normalise_newline_last: "last (normalise_newline cap c) = CHR 0x0A"
  by (auto simp: normalise_newline_def)

lemma clog_emit_trace:
  assumes "length (g_buf st) = CLOG_LINE_MAX" and "g_lvl st \<le> level_int lvl"
  shows "map_option trace (clog_emit env lvl file line grp msg st) =
           Some (trace st @ [EvLock, EvWrite (g_fd st) (emitted_line env (g_fd st) lvl file line grp msg),
                 EvUnlock] @ (if lvl = CLOG_FATAL then [EvFsync (g_fd st)] else []))"
proof -
  obtain buf where "clog_emit env lvl file line grp msg st =
             Some (st\<lparr>g_buf := buf,
                      trace := trace st @ [EvLock,
                                 EvWrite (g_fd st) (emitted_line env (g_fd st) lvl file line grp msg),
                                 EvUnlock]
                               @ (if lvl = CLOG_FATAL then [EvFsync (g_fd st)] else [])\<rparr>)"
    using clog_emit_enabled [OF assms] by blast
  then show ?thesis by simp
qed

section \<open>Evaluation in the sample environment\<close>

lemma init_facts:
  "length (g_buf clog_init_state) = CLOG_LINE_MAX"
  "length (g_timers clog_init_state) = CLOG_TIMERS_MAX"
  "g_lvl clog_init_state = 2"
  "g_fd clog_init_state = 2"
  "trace clog_init_state = []"
  by (simp_all add: clog_init_state_def CLOG_FD_STDERR_def CLOG_DEFAULT_LEVEL_def)

lemma dec_vals: "dec 999 = ''999''" "dec 1 = ''1''" "dec 0 = ''0''" "dec 250 = ''250''" "dec 2025 = ''2025''" "dec 3 = ''3''" "dec 9 = ''9''" "dec 14 = ''14''" "dec 5 = ''5''"
  "dec 7 = ''7''" "dec 42 = ''42''" "dec 4242 = ''4242''" "dec 12 = ''12''" "dec 16 = ''16''"
  by (simp_all add: dec.simps digit_char_def)

lemma sample_timestamp: "timestamp_text sample_env = ''2025-03-09 14:05:07.042 ''"
  by (simp add: timestamp_text_def sample_env_def fmt_0d_def dec_vals)

lemma sample_level_text:
  "level_text sample_env 2 lvl = ''['' @ clog_level_name lvl @ '']'' @ [CHR 0x09]"
  by (simp add: level_text_def clog_color_enabled_def sample_env_def)

lemma sample_tid: "tid_text sample_env = ''(tid:4242) ''"
  by (simp add: tid_text_def sample_env_def fmt_lu_def dec_vals)

lemma sample_site: "site_text ''main.c'' 12 = ''<main.c:12> ''"
  by (simp add: site_text_def fmt_d_def dec_vals clog_basename_def)

lemma sample_prefix:
  "prefix_text sample_env 2 lvl ''main.c'' 12 None =
     ''2025-03-09 14:05:07.042 ['' @ clog_level_name lvl @ '']'' @ [CHR 0x09] @ ''(tid:4242) <main.c:12> ''"
  "prefix_text sample_env 2 lvl ''main.c'' 12 (Some ''timer'') =
     ''2025-03-09 14:05:07.042 ['' @ clog_level_name lvl @ '']'' @ [CHR 0x09] @ ''(tid:4242) <main.c:12> [timer] ''"
  by (simp_all add: prefix_text_def sample_timestamp sample_level_text sample_tid sample_site group_text_def)

lemma sublist_filter_length:
  assumes "sublist ys xs"
  shows "length (filter P ys) \<le> length (filter P xs)"
proof -
  from assms obtain ps ss where "xs = ps @ ys @ ss" by (auto simp: sublist_def)
  then show ?thesis by simp
qed

section \<open>Emission gate\<close>

text \<open>
  Claim C1. For every severity and every threshold, a log call issues its write (between
  taking and releasing the lock, followed by the flush when the severity is fatal) if and
  only if the severity is at least the threshold; below the threshold the call returns with
  the whole state as it was: the line buffer untouched, no write, no lock.
\<close>

theorem clog_emit_threshold:
  assumes len: "length (g_buf st) = CLOG_LINE_MAX"
  shows "((\<exists>st' bytes. clog_emit env lvl file line grp msg st = Some st' \<and> bytes \<noteq> [] \<and>
             trace st' = trace st @ [EvLock, EvWrite (g_fd st) bytes, EvUnlock]
                          @ (if lvl = CLOG_FATAL then [EvFsync (g_fd st)] else []))
          \<longleftrightarrow> g_lvl st \<le> level_int lvl)
       \<and> (level_int lvl < g_lvl st \<longrightarrow> clog_emit env lvl file line grp msg st = Some st)"
proof -
  have below: "clog_emit env lvl file line grp msg st = Some st" if "level_int lvl < g_lvl st"
    using that by (simp add: clog_emit_def)
  have above: "\<exists>st' bytes. clog_emit env lvl file line grp msg st = Some st' \<and> bytes \<noteq> [] \<and>
             trace st' = trace st @ [EvLock, EvWrite (g_fd st) bytes, EvUnlock]
                          @ (if lvl = CLOG_FATAL then [EvFsync (g_fd st)] else [])"
    if en: "g_lvl st \<le> level_int lvl"
  proof -
    obtain buf where "clog_emit env lvl file line grp msg st =
             Some (st\<lparr>g_buf := buf,
                      trace := trace st @ [EvLock,
                                 EvWrite (g_fd st) (emitted_line env (g_fd st) lvl file line grp msg),
                                 EvUnlock]
                               @ (if lvl = CLOG_FATAL then [EvFsync (g_fd st)] else [])\<rparr>)"
      using clog_emit_enabled [OF len en] by blast
    moreover have "emitted_line env (g_fd st) lvl file line grp msg \<noteq> []"
      by (simp add: emitted_line_def normalise_newline_nonempty)
    ultimately show ?thesis by force
  qed
  have "\<not> (\<exists>st' bytes. clog_emit env lvl file line grp msg st = Some st' \<and> bytes \<noteq> [] \<and>
             trace st' = trace st @ [EvLock, EvWrite (g_fd st) bytes, EvUnlock]
                          @ (if lvl = CLOG_FATAL then [EvFsync (g_fd st)] else []))"
    if "level_int lvl < g_lvl st"
    using below [OF that] by auto
  with below above show ?thesis by (meson not_le)
qed

text \<open>
  The first test of the repository: with the threshold at \<open>CLOG_ERROR\<close> an info call
  changes nothing and an error call writes one line.
\<close>

theorem clog_emit_threshold_witness:
  "clog_emit sample_env CLOG_INFO ''tests/test_c-log.c'' 133 None
      (Rendered ''hello info (should NOT appear)'') (clog_set_level CLOG_ERROR clog_init_state)
     = Some (clog_set_level CLOG_ERROR clog_init_state)
   \<and> (\<exists>st' bytes. clog_emit sample_env CLOG_ERROR ''tests/test_c-log.c'' 134 None
          (Rendered ''boom'') (clog_set_level CLOG_ERROR clog_init_state) = Some st' \<and> bytes \<noteq> [] \<and>
        trace st' = [EvLock, EvWrite 2 bytes, EvUnlock])"
proof -
  have len: "length (g_buf (clog_set_level CLOG_ERROR clog_init_state)) = CLOG_LINE_MAX"
    by (simp add: clog_set_level_def clog_init_state_def)
  have lv: "g_lvl (clog_set_level CLOG_ERROR clog_init_state) = 4"
    and fd: "g_fd (clog_set_level CLOG_ERROR clog_init_state) = 2"
    and tr: "trace (clog_set_level CLOG_ERROR clog_init_state) = []"
    by (simp_all add: clog_set_level_def clog_init_state_def CLOG_FD_STDERR_def)
  from clog_emit_threshold [OF len, of sample_env CLOG_INFO "''tests/test_c-log.c''" 133 None
      "Rendered ''hello info (should NOT appear)''"]
  have a: "clog_emit sample_env CLOG_INFO ''tests/test_c-log.c'' 133 None
      (Rendered ''hello info (should NOT appear)'') (clog_set_level CLOG_ERROR clog_init_state)
     = Some (clog_set_level CLOG_ERROR clog_init_state)"
    using lv by simp
  from clog_emit_threshold [OF len, of sample_env CLOG_ERROR "''tests/test_c-log.c''" 134 None
      "Rendered ''boom''"]
  have b: "\<exists>st' bytes. clog_emit sample_env CLOG_ERROR ''tests/test_c-log.c'' 134 None
          (Rendered ''boom'') (clog_set_level CLOG_ERROR clog_init_state) = Some st' \<and> bytes \<noteq> [] \<and>
        trace st' = [EvLock, EvWrite 2 bytes, EvUnlock]"
    using lv fd tr by simp
  from a b show ?thesis by simp
qed


section \<open>Buffer safety\<close>

text \<open>
  Claim C4. Whatever the prefix fields, the group and the message, composition stays inside
  the buffer: every access of the model is checked and none fails. Each append step stores
  inside the buffer and leaves its cursor below the capacity, the prefix composer returns a
  cursor of at most the capacity, and the bytes handed to the write are the first bytes of the
  buffer, at most the capacity many, ending in a newline; for a rendered message the byte
  after them is the string terminator.
\<close>

theorem clog_emit_within_capacity:
  assumes len: "length (g_buf st) = CLOG_LINE_MAX"
  shows "(\<forall>dst pos s. length dst = CLOG_LINE_MAX \<and> pos < CLOG_LINE_MAX \<longrightarrow>
            (\<exists>dst' pos'. CLOG_APPEND CLOG_LINE_MAX s (dst, pos) = Some (dst', pos') \<and>
               length dst' = CLOG_LINE_MAX \<and> pos' < CLOG_LINE_MAX))
       \<and> (\<exists>dst' pos'. clog_write_prefix env (g_fd st) (g_buf st) CLOG_LINE_MAX lvl file line grp
                          = Some (dst', pos') \<and>
             length dst' = CLOG_LINE_MAX \<and> pos' \<le> CLOG_LINE_MAX)
       \<and> (\<exists>st'. clog_emit env lvl file line grp msg st = Some st' \<and>
             length (g_buf st') = CLOG_LINE_MAX \<and>
             (\<forall>fd bytes. EvWrite fd bytes \<in> set (drop (length (trace st)) (trace st')) \<longrightarrow>
                length bytes \<le> CLOG_LINE_MAX \<and>
                bytes = take (length bytes) (g_buf st') \<and>
                last bytes = CHR 0x0A \<and>
                (msg \<noteq> FmtError \<longrightarrow>
                   length bytes < CLOG_LINE_MAX \<and> g_buf st' ! length bytes = CHR 0x00)))"
proof (intro conjI allI impI)
  fix dst :: string and pos :: nat and s :: string
  assume "length dst = CLOG_LINE_MAX \<and> pos < CLOG_LINE_MAX"
  then show "\<exists>dst' pos'. CLOG_APPEND CLOG_LINE_MAX s (dst, pos) = Some (dst', pos') \<and>
               length dst' = CLOG_LINE_MAX \<and> pos' < CLOG_LINE_MAX"
    using CLOG_APPEND_ok [of dst CLOG_LINE_MAX pos s] by blast
next
  have "0 < CLOG_LINE_MAX" by (simp add: CLOG_LINE_MAX_def)
  from clog_write_prefix_ok [OF len this, of env "g_fd st" lvl "file" "line" grp]
  show "\<exists>dst' pos'. clog_write_prefix env (g_fd st) (g_buf st) CLOG_LINE_MAX lvl file line grp
                          = Some (dst', pos') \<and>
             length dst' = CLOG_LINE_MAX \<and> pos' \<le> CLOG_LINE_MAX"
    by (meson less_imp_le)
next
  show "\<exists>st'. clog_emit env lvl file line grp msg st = Some st' \<and>
             length (g_buf st') = CLOG_LINE_MAX \<and>
             (\<forall>fd bytes. EvWrite fd bytes \<in> set (drop (length (trace st)) (trace st')) \<longrightarrow>
                length bytes \<le> CLOG_LINE_MAX \<and>
                bytes = take (length bytes) (g_buf st') \<and>
                last bytes = CHR 0x0A \<and>
                (msg \<noteq> FmtError \<longrightarrow>
                   length bytes < CLOG_LINE_MAX \<and> g_buf st' ! length bytes = CHR 0x00))"
  proof (cases "level_int lvl < g_lvl st")
    case True
    then have "clog_emit env lvl file line grp msg st = Some st"
      by (simp add: clog_emit_def)
    then show ?thesis using len by simp
  next
    case False
    then have en: "g_lvl st \<le> level_int lvl" by simp
    define L where "L = emitted_line env (g_fd st) lvl file line grp msg"
    obtain buf where b: "length buf = CLOG_LINE_MAX" "buf ! length L = CHR 0x00"
      "take (length L) buf = L" "length L < CLOG_LINE_MAX"
      and e: "clog_emit env lvl file line grp msg st =
             Some (st\<lparr>g_buf := buf,
                      trace := trace st @ [EvLock, EvWrite (g_fd st) L, EvUnlock]
                               @ (if lvl = CLOG_FATAL then [EvFsync (g_fd st)] else [])\<rparr>)"
      using clog_emit_enabled [OF len en, of env "file" "line" grp msg] unfolding L_def by blast
    have lastL: "last L = CHR 0x0A"
      by (simp add: L_def emitted_line_def normalise_newline_last)
    show ?thesis
      using e b lastL by auto
  qed
qed

text \<open>A warning whose message is five times the capacity.\<close>

theorem clog_emit_within_capacity_witness:
  "\<exists>st'. clog_emit sample_env CLOG_WARN ''src/net.c'' 88 (Some ''net'')
            (Rendered (replicate 5000 (CHR ''x''))) clog_init_state = Some st' \<and>
         length (g_buf st') = CLOG_LINE_MAX"
proof -
  have len: "length (g_buf clog_init_state) = CLOG_LINE_MAX"
    by (simp add: clog_init_state_def)
  from clog_emit_within_capacity [OF len, of sample_env CLOG_WARN "''src/net.c''" 88 "Some ''net''"
      "Rendered (replicate 5000 (CHR ''x''))"]
  show ?thesis by blast
qed


section \<open>Truncation and newline normalisation\<close>

text \<open>
  Claim C2, evaluated on a message of 2000 bytes, longer than the buffer. The cursor of a
  truncated record is \<open>CLOG_LINE_MAX - 1\<close>, so the guard \<open>off + mlen < cap\<close> of the
  marker step never holds: the written line has \<open>CLOG_LINE_MAX - 1 = 1023\<close> bytes and ends
  in one newline, but it holds no truncation marker, only the prefix and the first 968 bytes
  of the message.
\<close>

theorem clog_emit_truncation_no_marker:
  "map_option trace (clog_emit sample_env CLOG_INFO ''main.c'' 12 None
       (Rendered (replicate 2000 (CHR ''A''))) clog_init_state)
   = Some [EvLock,
           EvWrite 2 (''2025-03-09 14:05:07.042 [INFO]'' @ [CHR 0x09] @ ''(tid:4242) <main.c:12> ''
                      @ replicate 968 (CHR ''A'') @ [CHR 0x0A]),
           EvUnlock]
   \<and> \<not> sublist ''...''
         (''2025-03-09 14:05:07.042 [INFO]'' @ [CHR 0x09] @ ''(tid:4242) <main.c:12> ''
            @ replicate 968 (CHR ''A'') @ [CHR 0x0A])"
proof -
  have "emitted_line sample_env 2 CLOG_INFO ''main.c'' 12 None (Rendered (replicate 2000 (CHR ''A'')))
     = ''2025-03-09 14:05:07.042 [INFO]'' @ [CHR 0x09] @ ''(tid:4242) <main.c:12> ''
         @ replicate 968 (CHR ''A'') @ [CHR 0x0A]"
    by (simp add: emitted_line_def sample_prefix normalise_newline_def msg_text_def CLOG_LINE_MAX_def)
  then have a: "map_option trace (clog_emit sample_env CLOG_INFO ''main.c'' 12 None
       (Rendered (replicate 2000 (CHR ''A''))) clog_init_state)
   = Some [EvLock,
           EvWrite 2 (''2025-03-09 14:05:07.042 [INFO]'' @ [CHR 0x09] @ ''(tid:4242) <main.c:12> ''
                      @ replicate 968 (CHR ''A'') @ [CHR 0x0A]),
           EvUnlock]"
    using clog_emit_trace [of clog_init_state CLOG_INFO sample_env "''main.c''" 12 None
        "Rendered (replicate 2000 (CHR ''A''))"]
    by (simp add: init_facts)
  have b: "\<not> sublist ''...''
         (''2025-03-09 14:05:07.042 [INFO]'' @ [CHR 0x09] @ ''(tid:4242) <main.c:12> ''
            @ replicate 968 (CHR ''A'') @ [CHR 0x0A])"
  proof
    assume "sublist ''...''
         (''2025-03-09 14:05:07.042 [INFO]'' @ [CHR 0x09] @ ''(tid:4242) <main.c:12> ''
            @ replicate 968 (CHR ''A'') @ [CHR 0x0A])"
    from sublist_filter_length [OF this, of "\<lambda>c. c = CHR ''.''"]
    show False by simp
  qed
  from a b show ?thesis by (rule conjI)
qed

text \<open>
  Claim C3 as stated fails on a message that itself ends in two newlines: nothing is
  appended, nothing is removed, and the written line ends in two newline bytes.
\<close>

theorem clog_emit_double_newline_counterexample:
  "map_option trace (clog_emit sample_env CLOG_INFO ''main.c'' 12 None
       (Rendered [CHR ''x'', CHR 0x0A, CHR 0x0A]) clog_init_state)
   = Some [EvLock,
           EvWrite 2 (''2025-03-09 14:05:07.042 [INFO]'' @ [CHR 0x09] @ ''(tid:4242) <main.c:12> x''
                      @ [CHR 0x0A, CHR 0x0A]),
           EvUnlock]
   \<and> \<not> ends_with_one_newline
         (''2025-03-09 14:05:07.042 [INFO]'' @ [CHR 0x09] @ ''(tid:4242) <main.c:12> x''
            @ [CHR 0x0A, CHR 0x0A])"
proof -
  have "emitted_line sample_env 2 CLOG_INFO ''main.c'' 12 None (Rendered [CHR ''x'', CHR 0x0A, CHR 0x0A])
     = ''2025-03-09 14:05:07.042 [INFO]'' @ [CHR 0x09] @ ''(tid:4242) <main.c:12> x'' @ [CHR 0x0A, CHR 0x0A]"
    by (simp add: emitted_line_def sample_prefix normalise_newline_def msg_text_def CLOG_LINE_MAX_def)
  then show ?thesis
    using clog_emit_trace [of clog_init_state CLOG_INFO sample_env "''main.c''" 12 None
        "Rendered [CHR ''x'', CHR 0x0A, CHR 0x0A]"]
    by (simp add: init_facts ends_with_one_newline_def)
qed

text \<open>
  Claim C3, amended. Every written line ends in a newline byte. With \<open>c\<close> the composed
  content (prefix and message, cut at \<open>CLOG_LINE_MAX - 1\<close> bytes): if \<open>c\<close> ends in a
  newline the line is \<open>c\<close> itself, nothing is added; if not and there is room, one newline is
  appended, and the line then ends with exactly one newline; if not and the buffer is full,
  the last content byte is replaced by the newline.
\<close>

theorem clog_emit_newline_terminated:
  assumes len: "length (g_buf st) = CLOG_LINE_MAX" and en: "g_lvl st \<le> level_int lvl"
    and c: "c = take (CLOG_LINE_MAX - 1) (prefix_text env (g_fd st) lvl file line grp @ msg_text msg)"
  shows "\<exists>st' L. clog_emit env lvl file line grp msg st = Some st' \<and>
           trace st' = trace st @ [EvLock, EvWrite (g_fd st) L, EvUnlock]
                        @ (if lvl = CLOG_FATAL then [EvFsync (g_fd st)] else []) \<and>
           L \<noteq> [] \<and> last L = CHR 0x0A \<and>
           (c \<noteq> [] \<and> last c = CHR 0x0A \<longrightarrow> L = c) \<and>
           (\<not> (c \<noteq> [] \<and> last c = CHR 0x0A) \<and> length c + 1 < CLOG_LINE_MAX \<longrightarrow>
              L = c @ [CHR 0x0A] \<and> ends_with_one_newline L) \<and>
           (\<not> (c \<noteq> [] \<and> last c = CHR 0x0A) \<and> length c + 1 = CLOG_LINE_MAX \<longrightarrow>
              L = butlast c @ [CHR 0x0A])"
proof -
  define L where "L = emitted_line env (g_fd st) lvl file line grp msg"
  obtain buf where e: "clog_emit env lvl file line grp msg st =
             Some (st\<lparr>g_buf := buf,
                      trace := trace st @ [EvLock, EvWrite (g_fd st) L, EvUnlock]
                               @ (if lvl = CLOG_FATAL then [EvFsync (g_fd st)] else [])\<rparr>)"
    using clog_emit_enabled [OF len en, of env "file" "line" grp msg] unfolding L_def by blast
  have LN: "L = normalise_newline CLOG_LINE_MAX c"
    by (simp add: L_def emitted_line_def c)
  have 1: "L \<noteq> []" "last L = CHR 0x0A"
    unfolding LN by (simp_all add: normalise_newline_nonempty normalise_newline_last)
  have 2: "L = c" if "c \<noteq> [] \<and> last c = CHR 0x0A"
    using that by (simp add: LN normalise_newline_def)
  have 3: "L = c @ [CHR 0x0A] \<and> ends_with_one_newline L"
    if "\<not> (c \<noteq> [] \<and> last c = CHR 0x0A) \<and> length c + 1 < CLOG_LINE_MAX"
    using that by (auto simp: LN normalise_newline_def ends_with_one_newline_def)
  have 4: "L = butlast c @ [CHR 0x0A]"
    if "\<not> (c \<noteq> [] \<and> last c = CHR 0x0A) \<and> length c + 1 = CLOG_LINE_MAX"
  proof -
    have "length c + 1 = CLOG_LINE_MAX" using that by simp
    then have "CLOG_LINE_MAX - 2 = length c - 1" by arith
    then have "take (CLOG_LINE_MAX - 2) c = butlast c" by (simp add: butlast_conv_take)
    then show ?thesis using that by (auto simp: LN normalise_newline_def)
  qed
  from e 1 2 3 4 show ?thesis by auto
qed

text \<open>The newline test of the repository: an info call with the message \<open>line1\<close>.\<close>

theorem clog_emit_newline_terminated_witness:
  "\<exists>st' L. clog_emit sample_env CLOG_INFO ''main.c'' 12 None (Rendered ''line1'') clog_init_state
              = Some st' \<and>
     trace st' = [EvLock, EvWrite 2 L, EvUnlock] \<and>
     L = ''2025-03-09 14:05:07.042 [INFO]'' @ [CHR 0x09] @ ''(tid:4242) <main.c:12> line1'' @ [CHR 0x0A] \<and>
     ends_with_one_newline L"
proof -
  define c where "c = ''2025-03-09 14:05:07.042 [INFO]'' @ [CHR 0x09] @ ''(tid:4242) <main.c:12> line1''"
  have c: "c = take (CLOG_LINE_MAX - 1)
             (prefix_text sample_env (g_fd clog_init_state) CLOG_INFO ''main.c'' 12 None
                @ msg_text (Rendered ''line1''))"
    by (simp add: c_def init_facts sample_prefix msg_text_def CLOG_LINE_MAX_def)
  have en: "g_lvl clog_init_state \<le> level_int CLOG_INFO" by (simp add: init_facts)
  have n: "\<not> (c \<noteq> [] \<and> last c = CHR 0x0A) \<and> length c + 1 < CLOG_LINE_MAX"
    by (simp add: c_def CLOG_LINE_MAX_def)
  from clog_emit_newline_terminated [OF init_facts(1) en c] n
  show ?thesis by (auto simp: init_facts c_def)
qed


section \<open>Properties of the timer table\<close>

lemma clog_emit_frame:
  assumes len: "length (g_buf st) = CLOG_LINE_MAX"
  shows "\<exists>st'. clog_emit env lvl file line grp msg st = Some st' \<and>
           g_timers st' = g_timers st \<and> g_lvl st' = g_lvl st \<and> g_fd st' = g_fd st \<and>
           length (g_buf st') = CLOG_LINE_MAX \<and>
           trace st' = trace st @
             (if g_lvl st \<le> level_int lvl
              then [EvLock, EvWrite (g_fd st) (emitted_line env (g_fd st) lvl file line grp msg), EvUnlock]
                   @ (if lvl = CLOG_FATAL then [EvFsync (g_fd st)] else [])
              else []) \<and>
           (level_int lvl < g_lvl st \<longrightarrow> st' = st)"
proof (cases "g_lvl st \<le> level_int lvl")
  case True
  obtain buf where "length buf = CLOG_LINE_MAX" and "clog_emit env lvl file line grp msg st =
             Some (st\<lparr>g_buf := buf,
                      trace := trace st @ [EvLock,
                                 EvWrite (g_fd st) (emitted_line env (g_fd st) lvl file line grp msg),
                                 EvUnlock]
                               @ (if lvl = CLOG_FATAL then [EvFsync (g_fd st)] else [])\<rparr>)"
    using clog_emit_enabled [OF len True] by blast
  then show ?thesis using True by auto
next
  case False
  then have "clog_emit env lvl file line grp msg st = Some st" by (simp add: clog_emit_def)
  then show ?thesis using False len by auto
qed

lemma clog_log_file_line_eq:
  "clog_log_file_line env lvl file line grp msg st = clog_emit env lvl file line grp msg st"
  by (simp add: clog_log_file_line_def clog_vlog_file_line_def)

lemma find_slot_loop_spec:
  "(clog_timer_find_slot_loop ts k i = - 1 \<and>
      (\<forall>j. i \<le> j \<and> j < CLOG_TIMERS_MAX \<longrightarrow> \<not> (used (ts ! j) \<and> key (ts ! j) = k)))
   \<or> (\<exists>m. clog_timer_find_slot_loop ts k i = int m \<and> i \<le> m \<and> m < CLOG_TIMERS_MAX \<and>
          used (ts ! m) \<and> key (ts ! m) = k \<and>
          (\<forall>j. i \<le> j \<and> j < m \<longrightarrow> \<not> (used (ts ! j) \<and> key (ts ! j) = k)))"
proof (induction ts k i rule: clog_timer_find_slot_loop.induct)
  case (1 ts k i)
  show ?case
  proof (cases "i < CLOG_TIMERS_MAX")
    case False
    then have "clog_timer_find_slot_loop ts k i = - 1"
      by (simp add: clog_timer_find_slot_loop.simps [of ts k i])
    then show ?thesis using False by auto
  next
    case lt: True
    show ?thesis
    proof (cases "used (ts ! i) \<and> key (ts ! i) = k")
      case True
      then have "clog_timer_find_slot_loop ts k i = int i"
        using lt by (simp add: clog_timer_find_slot_loop.simps [of ts k i])
      then show ?thesis using lt True by auto
    next
      case False
      then have eq: "clog_timer_find_slot_loop ts k i = clog_timer_find_slot_loop ts k (i + 1)"
        using lt by (auto simp: clog_timer_find_slot_loop.simps [of ts k i])
      have nm: "\<not> (used (ts ! j) \<and> key (ts ! j) = k)" if "j = i" for j
        using that False by simp
      from "1.IH" [OF lt False] show ?thesis
      proof (elim disjE conjE exE)
        assume a: "clog_timer_find_slot_loop ts k (i + 1) = - 1"
          and b: "\<forall>j. i + 1 \<le> j \<and> j < CLOG_TIMERS_MAX \<longrightarrow> \<not> (used (ts ! j) \<and> key (ts ! j) = k)"
        have "\<forall>j. i \<le> j \<and> j < CLOG_TIMERS_MAX \<longrightarrow> \<not> (used (ts ! j) \<and> key (ts ! j) = k)"
          using b nm by (metis Suc_eq_plus1 Suc_leI le_neq_implies_less)
        then show ?thesis using a eq by simp
      next
        fix m
        assume a: "clog_timer_find_slot_loop ts k (i + 1) = int m" "i + 1 \<le> m" "m < CLOG_TIMERS_MAX"
          "used (ts ! m)" "key (ts ! m) = k"
          and b: "\<forall>j. i + 1 \<le> j \<and> j < m \<longrightarrow> \<not> (used (ts ! j) \<and> key (ts ! j) = k)"
        have "\<forall>j. i \<le> j \<and> j < m \<longrightarrow> \<not> (used (ts ! j) \<and> key (ts ! j) = k)"
          using b nm by (metis Suc_eq_plus1 Suc_leI le_neq_implies_less)
        then show ?thesis using a eq by auto
      qed
    qed
  qed
qed

lemma free_slot_loop_spec:
  "(clog_timer_free_slot_loop ts i = - 1 \<and>
      (\<forall>j. i \<le> j \<and> j < CLOG_TIMERS_MAX \<longrightarrow> used (ts ! j)))
   \<or> (\<exists>m. clog_timer_free_slot_loop ts i = int m \<and> i \<le> m \<and> m < CLOG_TIMERS_MAX \<and>
          \<not> used (ts ! m) \<and> (\<forall>j. i \<le> j \<and> j < m \<longrightarrow> used (ts ! j)))"
proof (induction ts i rule: clog_timer_free_slot_loop.induct)
  case (1 ts i)
  show ?case
  proof (cases "i < CLOG_TIMERS_MAX")
    case False
    then have "clog_timer_free_slot_loop ts i = - 1"
      by (simp add: clog_timer_free_slot_loop.simps [of ts i])
    then show ?thesis using False by auto
  next
    case lt: True
    show ?thesis
    proof (cases "\<not> used (ts ! i)")
      case True
      then have "clog_timer_free_slot_loop ts i = int i"
        using lt by (simp add: clog_timer_free_slot_loop.simps [of ts i])
      then show ?thesis using lt True by auto
    next
      case False
      then have eq: "clog_timer_free_slot_loop ts i = clog_timer_free_slot_loop ts (i + 1)"
        using lt by (auto simp: clog_timer_free_slot_loop.simps [of ts i])
      have nm: "used (ts ! j)" if "j = i" for j
        using that False by simp
      from "1.IH" [OF lt False] show ?thesis
      proof (elim disjE conjE exE)
        assume a: "clog_timer_free_slot_loop ts (i + 1) = - 1"
          and b: "\<forall>j. i + 1 \<le> j \<and> j < CLOG_TIMERS_MAX \<longrightarrow> used (ts ! j)"
        have "\<forall>j. i \<le> j \<and> j < CLOG_TIMERS_MAX \<longrightarrow> used (ts ! j)"
          using b nm by (metis Suc_eq_plus1 Suc_leI le_neq_implies_less)
        then show ?thesis using a eq by simp
      next
        fix m
        assume a: "clog_timer_free_slot_loop ts (i + 1) = int m" "i + 1 \<le> m" "m < CLOG_TIMERS_MAX"
          "\<not> used (ts ! m)"
          and b: "\<forall>j. i + 1 \<le> j \<and> j < m \<longrightarrow> used (ts ! j)"
        have "\<forall>j. i \<le> j \<and> j < m \<longrightarrow> used (ts ! j)"
          using b nm by (metis Suc_eq_plus1 Suc_leI le_neq_implies_less)
        then show ?thesis using a eq by auto
      qed
    qed
  qed
qed

text \<open>The two scans over a whole table of \<open>CLOG_TIMERS_MAX\<close> slots.\<close>

lemma find_slot_none:
  assumes "length (g_timers st) = CLOG_TIMERS_MAX"
    and "\<forall>s \<in> set (g_timers st). \<not> (used s \<and> key s = k)"
  shows "clog_timer_find_slot st k = - 1"
proof -
  have "\<not> (used (g_timers st ! m) \<and> key (g_timers st ! m) = k)" if "m < CLOG_TIMERS_MAX" for m
    using assms that by (metis nth_mem)
  then show ?thesis
    using find_slot_loop_spec [of "g_timers st" k 0] unfolding clog_timer_find_slot_def by auto
qed

lemma find_slot_some:
  assumes "length (g_timers st) = CLOG_TIMERS_MAX"
    and "\<exists>s \<in> set (g_timers st). used s \<and> key s = k"
  shows "\<exists>m < CLOG_TIMERS_MAX. clog_timer_find_slot st k = int m \<and>
           used (g_timers st ! m) \<and> key (g_timers st ! m) = k \<and>
           (\<forall>j < m. \<not> (used (g_timers st ! j) \<and> key (g_timers st ! j) = k))"
proof -
  from assms obtain j where "j < CLOG_TIMERS_MAX" "used (g_timers st ! j) \<and> key (g_timers st ! j) = k"
    by (metis in_set_conv_nth)
  then show ?thesis
    using find_slot_loop_spec [of "g_timers st" k 0] unfolding clog_timer_find_slot_def by auto
qed

lemma free_slot_none:
  assumes "length (g_timers st) = CLOG_TIMERS_MAX"
    and "\<forall>s \<in> set (g_timers st). used s"
  shows "clog_timer_free_slot st = - 1"
proof -
  have "used (g_timers st ! m)" if "m < CLOG_TIMERS_MAX" for m
    using assms that by (metis nth_mem)
  then show ?thesis
    using free_slot_loop_spec [of "g_timers st" 0] unfolding clog_timer_free_slot_def by auto
qed

lemma free_slot_some:
  assumes "length (g_timers st) = CLOG_TIMERS_MAX"
    and "\<exists>s \<in> set (g_timers st). \<not> used s"
  shows "\<exists>m < CLOG_TIMERS_MAX. clog_timer_free_slot st = int m \<and> \<not> used (g_timers st ! m) \<and>
           (\<forall>j < m. used (g_timers st ! j))"
proof -
  from assms obtain j where "j < CLOG_TIMERS_MAX" "\<not> used (g_timers st ! j)"
    by (metis in_set_conv_nth)
  then show ?thesis
    using free_slot_loop_spec [of "g_timers st" 0] unfolding clog_timer_free_slot_def by auto
qed

lemma timer_start_held:
  assumes wf: "length (g_timers st) = CLOG_TIMERS_MAX"
    and held: "\<exists>s \<in> set (g_timers st). used s \<and> key s = clog_hash64 label"
  shows "\<exists>m < CLOG_TIMERS_MAX. clog_timer_find_slot st (clog_hash64 label) = int m \<and>
           used (g_timers st ! m) \<and> key (g_timers st ! m) = clog_hash64 label \<and>
           clogp_timer_start env now file line label st =
             Some (st\<lparr>g_timers := (g_timers st)[m := (g_timers st ! m)\<lparr>t0 := now\<rparr>]\<rparr>)"
proof -
  obtain m where m: "m < CLOG_TIMERS_MAX" "clog_timer_find_slot st (clog_hash64 label) = int m"
    "used (g_timers st ! m)" "key (g_timers st ! m) = clog_hash64 label"
    using find_slot_some [OF wf held] by blast
  have "(g_timers st ! m)\<lparr>key := clog_hash64 label, t0 := now, used := True\<rparr>
          = (g_timers st ! m)\<lparr>t0 := now\<rparr>"
    using m(3,4) by (cases "g_timers st ! m") auto
  then have "clogp_timer_start env now file line label st =
             Some (st\<lparr>g_timers := (g_timers st)[m := (g_timers st ! m)\<lparr>t0 := now\<rparr>]\<rparr>)"
    using m(2) by (simp add: clogp_timer_start_def Let_def)
  with m show ?thesis by blast
qed

lemma timer_start_fresh:
  assumes wf: "length (g_timers st) = CLOG_TIMERS_MAX"
    and nokey: "\<forall>s \<in> set (g_timers st). \<not> (used s \<and> key s = clog_hash64 label)"
    and free: "\<exists>s \<in> set (g_timers st). \<not> used s"
  shows "\<exists>m < CLOG_TIMERS_MAX. \<not> used (g_timers st ! m) \<and> (\<forall>j < m. used (g_timers st ! j)) \<and>
           clogp_timer_start env now file line label st =
             Some (st\<lparr>g_timers := (g_timers st)[m := (g_timers st ! m)
                      \<lparr>key := clog_hash64 label, t0 := now, used := True\<rparr>]\<rparr>)"
proof -
  have f: "clog_timer_find_slot st (clog_hash64 label) = - 1"
    using find_slot_none [OF wf nokey] .
  obtain m where m: "m < CLOG_TIMERS_MAX" "clog_timer_free_slot st = int m"
    "\<not> used (g_timers st ! m)" "\<forall>j < m. used (g_timers st ! j)"
    using free_slot_some [OF wf free] by blast
  have "clogp_timer_start env now file line label st =
             Some (st\<lparr>g_timers := (g_timers st)[m := (g_timers st ! m)
                      \<lparr>key := clog_hash64 label, t0 := now, used := True\<rparr>]\<rparr>)"
    using f m(2) by (simp add: clogp_timer_start_def Let_def)
  with m show ?thesis by blast
qed

lemma slots_exhausted_text:
  "''no free timer slots (CLOG_TIMERS_MAX='' @ fmt_d (int CLOG_TIMERS_MAX) @ '')''
     = ''no free timer slots (CLOG_TIMERS_MAX=16)''"
  by (simp add: fmt_d_def CLOG_TIMERS_MAX_def dec_vals)

lemma timer_start_full:
  assumes wf: "length (g_timers st) = CLOG_TIMERS_MAX"
    and full: "\<forall>s \<in> set (g_timers st). used s \<and> key s \<noteq> clog_hash64 label"
  shows "clogp_timer_start env now file line label st =
           clog_emit env CLOG_WARN file line (Some ''timer'')
             (Rendered ''no free timer slots (CLOG_TIMERS_MAX=16)'') st"
proof -
  have f: "clog_timer_find_slot st (clog_hash64 label) = - 1"
    using find_slot_none [OF wf] full by blast
  have g: "clog_timer_free_slot st = - 1"
    using free_slot_none [OF wf] full by blast
  show ?thesis
    using f g slots_exhausted_text
    by (simp add: clogp_timer_start_def Let_def clog_log_file_line_eq)
qed

lemma timer_end_unknown:
  assumes wf: "length (g_timers st) = CLOG_TIMERS_MAX"
    and nokey: "\<forall>s \<in> set (g_timers st). \<not> (used s \<and> key s = clog_hash64 label)"
  shows "clogp_timer_end env now file line label st =
           clog_emit env CLOG_WARN file line (Some ''timer'')
             (Rendered (''end_time for unknown label: '' @ label)) st"
  using find_slot_none [OF wf nokey]
  by (simp add: clogp_timer_end_def Let_def clog_log_file_line_eq)

lemma timer_tiers:
  "(dt < CLOG_TIMER_NS_MAX) = (unat dt < 1000)"
  "(dt < CLOG_TIMER_US_MAX) = (unat dt < 1000000)"
  "(dt < CLOG_TIMER_MS_MAX) = (unat dt < 1000000000)"
  for dt :: "64 word"
  by (simp_all add: word_less_nat_alt CLOG_TIMER_NS_MAX_def CLOG_TIMER_US_MAX_def CLOG_TIMER_MS_MAX_def)

lemma timer_end_found:
  assumes wf: "length (g_timers st) = CLOG_TIMERS_MAX"
    and held: "\<exists>s \<in> set (g_timers st). used s \<and> key s = clog_hash64 label"
  shows "\<exists>m < CLOG_TIMERS_MAX. clog_timer_find_slot st (clog_hash64 label) = int m \<and>
           used (g_timers st ! m) \<and> key (g_timers st ! m) = clog_hash64 label \<and>
           (\<forall>j < m. \<not> (used (g_timers st ! j) \<and> key (g_timers st ! j) = clog_hash64 label)) \<and>
           clogp_timer_end env now file line label st =
             clog_emit env CLOG_DEBUG file line (Some ''timer'')
               (Rendered (timer_report env (now - t0 (g_timers st ! m)) label))
               (st\<lparr>g_timers := (g_timers st)[m := (g_timers st ! m)\<lparr>used := False\<rparr>]\<rparr>)"
proof -
  obtain m where m: "m < CLOG_TIMERS_MAX" "clog_timer_find_slot st (clog_hash64 label) = int m"
    "used (g_timers st ! m)" "key (g_timers st ! m) = clog_hash64 label"
    "\<forall>j < m. \<not> (used (g_timers st ! j) \<and> key (g_timers st ! j) = clog_hash64 label)"
    using find_slot_some [OF wf held] by blast
  have "clogp_timer_end env now file line label st =
             clog_emit env CLOG_DEBUG file line (Some ''timer'')
               (Rendered (timer_report env (now - t0 (g_timers st ! m)) label))
               (st\<lparr>g_timers := (g_timers st)[m := (g_timers st ! m)\<lparr>used := False\<rparr>]\<rparr>)"
    using m(2)
    by (simp add: clogp_timer_end_def Let_def clog_log_file_line_eq timer_report_def timer_tiers
        fmt_lu_def CLOG_TIMER_UNIT_US_def)
  with m show ?thesis by blast
qed


lemma find_slot_loop_cong:
  assumes "\<forall>j < CLOG_TIMERS_MAX. used (ts' ! j) = used (ts ! j) \<and> key (ts' ! j) = key (ts ! j)"
  shows "clog_timer_find_slot_loop ts' k i = clog_timer_find_slot_loop ts k i"
  using assms
proof (induction ts k i rule: clog_timer_find_slot_loop.induct)
  case (1 ts k i)
  show ?case
  proof (cases "i < CLOG_TIMERS_MAX")
    case False
    then show ?thesis
      by (simp add: clog_timer_find_slot_loop.simps [of ts k i] clog_timer_find_slot_loop.simps [of ts' k i])
  next
    case lt: True
    then have same: "used (ts' ! i) = used (ts ! i)" "key (ts' ! i) = key (ts ! i)"
      using "1.prems" by auto
    show ?thesis
    proof (cases "used (ts ! i) \<and> key (ts ! i) = k")
      case True
      then show ?thesis using lt same
        by (simp add: clog_timer_find_slot_loop.simps [of ts k i] clog_timer_find_slot_loop.simps [of ts' k i])
    next
      case False
      from "1.IH" [OF lt False "1.prems"] show ?thesis using lt same False
        by (auto simp: clog_timer_find_slot_loop.simps [of ts k i] clog_timer_find_slot_loop.simps [of ts' k i])
    qed
  qed
qed

lemma started_reached:
  "clogp_timer_start env t file line label clog_init_state = Some (sample_started_state label t)"
proof -
  have wf: "length (g_timers clog_init_state) = CLOG_TIMERS_MAX"
    by (simp add: clog_init_state_def)
  have "\<forall>s \<in> set (g_timers clog_init_state). \<not> (used s \<and> key s = clog_hash64 label)"
    by (simp add: clog_init_state_def)
  from find_slot_none [OF wf this]
  have f: "clog_timer_find_slot clog_init_state (clog_hash64 label) = - 1" .
  have g: "clog_timer_free_slot clog_init_state = 0"
    by (simp add: clog_timer_free_slot_def clog_timer_free_slot_loop.simps [of _ 0]
        clog_init_state_def CLOG_TIMERS_MAX_def)
  have "g_timers clog_init_state ! 0 = \<lparr>key = 0, t0 = 0, used = False\<rparr>"
    by (simp add: clog_init_state_def CLOG_TIMERS_MAX_def)
  then show ?thesis
    using f g by (simp add: clogp_timer_start_def Let_def sample_started_state_def)
qed

lemma started_facts:
  "length (g_timers (sample_started_state label t)) = CLOG_TIMERS_MAX"
  "length (g_buf (sample_started_state label t)) = CLOG_LINE_MAX"
  "g_lvl (sample_started_state label t) = 2"
  "g_fd (sample_started_state label t) = 2"
  "trace (sample_started_state label t) = []"
  "\<lparr>key = clog_hash64 label, t0 = t, used = True\<rparr> \<in> set (g_timers (sample_started_state label t))"
  by (simp_all add: sample_started_state_def clog_init_state_def set_update_memI
      CLOG_TIMERS_MAX_def CLOG_DEFAULT_LEVEL_def CLOG_FD_STDERR_def)

text \<open>
  Claim C5. When a slot already holds the key of the label, \<open>clogp_timer_start_\<close>
  overwrites the start time of that slot in place: the keys and the occupancy of all slots
  are unchanged, nothing is reported, and a further start from the result is the same as
  that start from the original state (start, start is one later start).
\<close>

theorem timer_restart_in_place:
  assumes wf: "length (g_timers st) = CLOG_TIMERS_MAX"
    and held: "\<exists>s \<in> set (g_timers st). used s \<and> key s = clog_hash64 label"
  shows "\<exists>st' i. clogp_timer_start env now file line label st = Some st' \<and>
           i < CLOG_TIMERS_MAX \<and> used (g_timers st ! i) \<and> key (g_timers st ! i) = clog_hash64 label \<and>
           st' = st\<lparr>g_timers := (g_timers st)[i := (g_timers st ! i)\<lparr>t0 := now\<rparr>]\<rparr> \<and>
           map used (g_timers st') = map used (g_timers st) \<and>
           map key (g_timers st') = map key (g_timers st) \<and>
           trace st' = trace st \<and>
           (\<forall>now2. clogp_timer_start env now2 file line label st' =
                     clogp_timer_start env now2 file line label st)"
proof -
  define k where "k = clog_hash64 label"
  define ts where "ts = g_timers st"
  obtain m where m: "m < CLOG_TIMERS_MAX" "clog_timer_find_slot st k = int m"
    "used (ts ! m)" "key (ts ! m) = k"
    and s1: "\<And>t. clogp_timer_start env t file line label st =
             Some (st\<lparr>g_timers := ts[m := (ts ! m)\<lparr>t0 := t\<rparr>]\<rparr>)"
  proof -
    obtain m where a: "m < CLOG_TIMERS_MAX" "clog_timer_find_slot st k = int m"
      "used (ts ! m)" "key (ts ! m) = k"
      using find_slot_some [OF wf held] unfolding k_def ts_def by blast
    have "(ts ! m)\<lparr>key := k, t0 := t, used := True\<rparr> = (ts ! m)\<lparr>t0 := t\<rparr>" for t
      using a(3,4) by (cases "ts ! m") auto
    then have "clogp_timer_start env t file line label st =
             Some (st\<lparr>g_timers := ts[m := (ts ! m)\<lparr>t0 := t\<rparr>]\<rparr>)" for t
      using a(2) by (simp add: clogp_timer_start_def Let_def k_def ts_def)
    with a show ?thesis using that by blast
  qed
  define st' where "st' = st\<lparr>g_timers := ts[m := (ts ! m)\<lparr>t0 := now\<rparr>]\<rparr>"
  have mlen: "m < length ts" using m(1) wf by (simp add: ts_def)
  have ts': "g_timers st' = ts[m := (ts ! m)\<lparr>t0 := now\<rparr>]" by (simp add: st'_def)
  have nth': "g_timers st' ! j = (if j = m then (ts ! m)\<lparr>t0 := now\<rparr> else ts ! j)" if "j < CLOG_TIMERS_MAX" for j
    using that wf by (simp add: ts' ts_def nth_list_update)
  have same: "\<forall>j < CLOG_TIMERS_MAX. used (g_timers st' ! j) = used (ts ! j) \<and> key (g_timers st' ! j) = key (ts ! j)"
    using nth' by simp
  have mu: "map used (g_timers st') = map used ts"
    using mlen by (simp add: ts' map_update list_update_same_conv)
  have mk: "map key (g_timers st') = map key ts"
    using mlen by (simp add: ts' map_update list_update_same_conv)
  have f': "clog_timer_find_slot st' k = int m"
    using find_slot_loop_cong [OF same, of k 0] m(2)
    by (simp add: clog_timer_find_slot_def ts_def)
  have again: "clogp_timer_start env now2 file line label st' =
                 clogp_timer_start env now2 file line label st" for now2
  proof -
    have "(g_timers st' ! m)\<lparr>key := k, t0 := now2, used := True\<rparr> = (ts ! m)\<lparr>t0 := now2\<rparr>"
      using m(1,3,4) nth' by (cases "ts ! m") auto
    then have "clogp_timer_start env now2 file line label st' =
                 Some (st'\<lparr>g_timers := (g_timers st')[m := (ts ! m)\<lparr>t0 := now2\<rparr>]\<rparr>)"
      using f' by (simp add: clogp_timer_start_def Let_def k_def)
    also have "\<dots> = Some (st\<lparr>g_timers := ts[m := (ts ! m)\<lparr>t0 := now2\<rparr>]\<rparr>)"
      by (simp add: st'_def)
    finally show ?thesis using s1 [of now2] by simp
  qed
  have "clogp_timer_start env now file line label st = Some st'"
    using s1 [of now] by (simp add: st'_def)
  moreover have "trace st' = trace st" by (simp add: st'_def)
  ultimately show ?thesis
    using m again mu mk unfolding st'_def [symmetric] ts_def [symmetric] k_def [symmetric]
    by (intro exI [of _ st'] exI [of _ m]) (simp add: st'_def ts_def k_def)
qed

text \<open>A timer started at 100 and started again at 900 is the timer started at 900.\<close>

theorem timer_restart_in_place_witness:
  "(\<exists>s \<in> set (g_timers (sample_started_state ''some label'' 100)).
       used s \<and> key s = clog_hash64 ''some label'')
   \<and> clogp_timer_start sample_env 900 ''main.c'' 12 ''some label''
        (sample_started_state ''some label'' 100)
      = Some (sample_started_state ''some label'' 900)"
proof -
  define st where "st = sample_started_state ''some label'' 100"
  have h: "\<exists>s \<in> set (g_timers st). used s \<and> key s = clog_hash64 ''some label''"
    unfolding st_def using started_facts(6) [of "''some label''" 100] by (rule rev_bexI) simp
  have wf: "length (g_timers st) = CLOG_TIMERS_MAX"
    unfolding st_def by (rule started_facts(1))
  from timer_restart_in_place [OF wf h, of sample_env 900 "''main.c''" 12]
  obtain st' i where
    a: "clogp_timer_start sample_env 900 ''main.c'' 12 ''some label'' st = Some st'"
    and b: "i < CLOG_TIMERS_MAX" "used (g_timers st ! i)"
    and c: "st' = st\<lparr>g_timers := (g_timers st)[i := (g_timers st ! i)\<lparr>t0 := 900\<rparr>]\<rparr>"
    by blast
  have "i = 0"
    using b by (cases i) (simp_all add: st_def sample_started_state_def clog_init_state_def CLOG_TIMERS_MAX_def)
  then have "st' = sample_started_state ''some label'' 900"
    using c by (simp add: st_def sample_started_state_def clog_init_state_def CLOG_TIMERS_MAX_def)
  then show ?thesis using a h by (simp add: st_def)
qed


lemma timer_start_total:
  assumes wfb: "length (g_buf st) = CLOG_LINE_MAX" and wft: "length (g_timers st) = CLOG_TIMERS_MAX"
  shows "\<exists>st'. clogp_timer_start env now file line label st = Some st' \<and>
           length (g_timers st') = CLOG_TIMERS_MAX \<and> length (g_buf st') = CLOG_LINE_MAX"
proof -
  consider (held) "\<exists>s \<in> set (g_timers st). used s \<and> key s = clog_hash64 label"
    | (fresh) "\<forall>s \<in> set (g_timers st). \<not> (used s \<and> key s = clog_hash64 label)"
              "\<exists>s \<in> set (g_timers st). \<not> used s"
    | (full) "\<forall>s \<in> set (g_timers st). used s \<and> key s \<noteq> clog_hash64 label"
    by blast
  then show ?thesis
  proof cases
    case held
    from timer_start_held [OF wft held, of env now "file" "line"] show ?thesis
      using wfb wft by auto
  next
    case fresh
    from timer_start_fresh [OF wft fresh, of env now "file" "line"] show ?thesis
      using wfb wft by auto
  next
    case full
    from timer_start_full [OF wft full, of env now "file" "line"]
      clog_emit_frame [OF wfb, of env CLOG_WARN "file" "line" "Some ''timer''"
        "Rendered ''no free timer slots (CLOG_TIMERS_MAX=16)''"]
    show ?thesis using wft by auto
  qed
qed

lemma timer_end_total:
  assumes wfb: "length (g_buf st) = CLOG_LINE_MAX" and wft: "length (g_timers st) = CLOG_TIMERS_MAX"
  shows "\<exists>st'. clogp_timer_end env now file line label st = Some st' \<and>
           length (g_timers st') = CLOG_TIMERS_MAX \<and> length (g_buf st') = CLOG_LINE_MAX"
proof (cases "\<exists>s \<in> set (g_timers st). used s \<and> key s = clog_hash64 label")
  case True
  from timer_end_found [OF wft True, of env now "file" "line"]
  obtain m where e: "clogp_timer_end env now file line label st =
             clog_emit env CLOG_DEBUG file line (Some ''timer'')
               (Rendered (timer_report env (now - t0 (g_timers st ! m)) label))
               (st\<lparr>g_timers := (g_timers st)[m := (g_timers st ! m)\<lparr>used := False\<rparr>]\<rparr>)"
    by blast
  have "length (g_buf (st\<lparr>g_timers := (g_timers st)[m := (g_timers st ! m)\<lparr>used := False\<rparr>]\<rparr>)) = CLOG_LINE_MAX"
    using wfb by simp
  from clog_emit_frame [OF this, of env CLOG_DEBUG "file" "line" "Some ''timer''"
      "Rendered (timer_report env (now - t0 (g_timers st ! m)) label)"]
  show ?thesis using e wft by auto
next
  case False
  then have "\<forall>s \<in> set (g_timers st). \<not> (used s \<and> key s = clog_hash64 label)" by blast
  from timer_end_unknown [OF wft this, of env now "file" "line"]
    clog_emit_frame [OF wfb, of env CLOG_WARN "file" "line" "Some ''timer''"
        "Rendered (''end_time for unknown label: '' @ label)"]
  show ?thesis using wft by auto
qed

lemma filter_used_bound: "length ts = CLOG_TIMERS_MAX \<Longrightarrow> length (filter used ts) \<le> CLOG_TIMERS_MAX"
  by (metis length_filter_le)

lemma full_facts:
  "length (g_buf sample_full_state) = CLOG_LINE_MAX"
  "length (g_timers sample_full_state) = CLOG_TIMERS_MAX"
  "g_lvl sample_full_state = 2"
  "g_fd sample_full_state = 2"
  "trace sample_full_state = []"
  by (simp_all add: sample_full_state_def clog_init_state_def CLOG_TIMERS_MAX_def
      CLOG_DEFAULT_LEVEL_def CLOG_FD_STDERR_def)

lemma full_no_q: "\<forall>s \<in> set (g_timers sample_full_state). used s \<and> key s \<noteq> clog_hash64 ''q''"
  by (simp add: sample_full_state_def clog_hash64_def)

text \<open>
  Claim C6. The timer table keeps its \<open>CLOG_TIMERS_MAX\<close> slots under every operation
  (start, end, and a log call, which does not touch the table), so it never holds more than
  \<open>CLOG_TIMERS_MAX\<close> occupied slots. A start with a new key when every slot is occupied
  is a log call at \<open>CLOG_WARN\<close> with group \<open>timer\<close> and the slot-exhaustion message,
  which goes through the emission gate, and it leaves the table unchanged.
\<close>

theorem timer_table_bounded:
  assumes wfb: "length (g_buf st) = CLOG_LINE_MAX" and wft: "length (g_timers st) = CLOG_TIMERS_MAX"
  shows "(\<exists>st'. clogp_timer_start env now file line label st = Some st' \<and>
            length (g_timers st') = CLOG_TIMERS_MAX \<and>
            length (filter used (g_timers st')) \<le> CLOG_TIMERS_MAX)
       \<and> (\<exists>st'. clogp_timer_end env now file line label st = Some st' \<and>
            length (g_timers st') = CLOG_TIMERS_MAX \<and>
            length (filter used (g_timers st')) \<le> CLOG_TIMERS_MAX)
       \<and> (\<exists>st'. clog_log_file_line env lvl file line grp msg st = Some st' \<and>
            g_timers st' = g_timers st)
       \<and> ((\<forall>s \<in> set (g_timers st). used s \<and> key s \<noteq> clog_hash64 label) \<longrightarrow>
            clogp_timer_start env now file line label st =
              clog_log_file_line env CLOG_WARN file line (Some ''timer'')
                (Rendered ''no free timer slots (CLOG_TIMERS_MAX=16)'') st \<and>
            (\<exists>st'. clogp_timer_start env now file line label st = Some st' \<and>
               g_timers st' = g_timers st \<and>
               trace st' = trace st @
                 (if g_lvl st \<le> level_int CLOG_WARN
                  then [EvLock,
                        EvWrite (g_fd st)
                          (emitted_line env (g_fd st) CLOG_WARN file line (Some ''timer'')
                             (Rendered ''no free timer slots (CLOG_TIMERS_MAX=16)'')),
                        EvUnlock]
                  else [])))"
proof (intro conjI impI)
  show "\<exists>st'. clogp_timer_start env now file line label st = Some st' \<and>
            length (g_timers st') = CLOG_TIMERS_MAX \<and>
            length (filter used (g_timers st')) \<le> CLOG_TIMERS_MAX"
    using timer_start_total [OF wfb wft, of env now "file" "line" label] filter_used_bound by blast
  show "\<exists>st'. clogp_timer_end env now file line label st = Some st' \<and>
            length (g_timers st') = CLOG_TIMERS_MAX \<and>
            length (filter used (g_timers st')) \<le> CLOG_TIMERS_MAX"
    using timer_end_total [OF wfb wft, of env now "file" "line" label] filter_used_bound by blast
  show "\<exists>st'. clog_log_file_line env lvl file line grp msg st = Some st' \<and>
            g_timers st' = g_timers st"
    using clog_emit_frame [OF wfb, of env lvl "file" "line" grp msg]
    by (auto simp: clog_log_file_line_eq)
next
  assume full: "\<forall>s \<in> set (g_timers st). used s \<and> key s \<noteq> clog_hash64 label"
  have e: "clogp_timer_start env now file line label st =
           clog_emit env CLOG_WARN file line (Some ''timer'')
             (Rendered ''no free timer slots (CLOG_TIMERS_MAX=16)'') st"
    using timer_start_full [OF wft full] .
  then show "clogp_timer_start env now file line label st =
              clog_log_file_line env CLOG_WARN file line (Some ''timer'')
                (Rendered ''no free timer slots (CLOG_TIMERS_MAX=16)'') st"
    by (simp add: clog_log_file_line_eq)
  from clog_emit_frame [OF wfb, of env CLOG_WARN "file" "line" "Some ''timer''"
        "Rendered ''no free timer slots (CLOG_TIMERS_MAX=16)''"]
  show "\<exists>st'. clogp_timer_start env now file line label st = Some st' \<and>
               g_timers st' = g_timers st \<and>
               trace st' = trace st @
                 (if g_lvl st \<le> level_int CLOG_WARN
                  then [EvLock,
                        EvWrite (g_fd st)
                          (emitted_line env (g_fd st) CLOG_WARN file line (Some ''timer'')
                             (Rendered ''no free timer slots (CLOG_TIMERS_MAX=16)'')),
                        EvUnlock]
                  else [])"
    unfolding e by auto
qed

text \<open>A seventeenth label on the full table, at the default threshold.\<close>

theorem timer_table_bounded_witness:
  "list_all (\<lambda>s. used s \<and> key s \<noteq> clog_hash64 ''q'') (g_timers sample_full_state)
   \<and> (\<exists>st'. clogp_timer_start sample_env 5000 ''main.c'' 12 ''q'' sample_full_state = Some st' \<and>
         g_timers st' = g_timers sample_full_state \<and>
         trace st' =
           [EvLock,
            EvWrite 2 (''2025-03-09 14:05:07.042 [WARN]'' @ [CHR 0x09] @
                       ''(tid:4242) <main.c:12> [timer] no free timer slots (CLOG_TIMERS_MAX=16)'' @
                       [CHR 0x0A]),
            EvUnlock])"
proof -
  have l: "emitted_line sample_env 2 CLOG_WARN ''main.c'' 12 (Some ''timer'')
             (Rendered ''no free timer slots (CLOG_TIMERS_MAX=16)'')
           = ''2025-03-09 14:05:07.042 [WARN]'' @ [CHR 0x09] @
             ''(tid:4242) <main.c:12> [timer] no free timer slots (CLOG_TIMERS_MAX=16)'' @ [CHR 0x0A]"
    by (simp add: emitted_line_def sample_prefix normalise_newline_def msg_text_def CLOG_LINE_MAX_def)
  from timer_table_bounded [OF full_facts(1) full_facts(2), of sample_env 5000 "''main.c''" 12 "''q''"]
    full_no_q
  have "\<exists>st'. clogp_timer_start sample_env 5000 ''main.c'' 12 ''q'' sample_full_state = Some st' \<and>
         g_timers st' = g_timers sample_full_state \<and>
         trace st' = trace sample_full_state @
                 (if g_lvl sample_full_state \<le> level_int CLOG_WARN
                  then [EvLock,
                        EvWrite (g_fd sample_full_state)
                          (emitted_line sample_env (g_fd sample_full_state) CLOG_WARN ''main.c'' 12 (Some ''timer'')
                             (Rendered ''no free timer slots (CLOG_TIMERS_MAX=16)'')),
                        EvUnlock]
                  else [])"
    by blast
  then show ?thesis using full_no_q by (simp add: full_facts l list_all_iff)
qed

text \<open>
  Claim C7. When no occupied slot holds the key of the label, \<open>clogp_timer_end_\<close> is a
  log call at \<open>CLOG_WARN\<close> with group \<open>timer\<close> and the unknown-label message; it
  returns, and the timer table is unchanged.
\<close>

theorem timer_end_unknown_label:
  assumes wfb: "length (g_buf st) = CLOG_LINE_MAX" and wft: "length (g_timers st) = CLOG_TIMERS_MAX"
    and nokey: "\<forall>s \<in> set (g_timers st). \<not> (used s \<and> key s = clog_hash64 label)"
  shows "clogp_timer_end env now file line label st =
           clog_log_file_line env CLOG_WARN file line (Some ''timer'')
             (Rendered (''end_time for unknown label: '' @ label)) st
       \<and> (\<exists>st'. clogp_timer_end env now file line label st = Some st' \<and>
             g_timers st' = g_timers st \<and>
             trace st' = trace st @
               (if g_lvl st \<le> level_int CLOG_WARN
                then [EvLock,
                      EvWrite (g_fd st)
                        (emitted_line env (g_fd st) CLOG_WARN file line (Some ''timer'')
                           (Rendered (''end_time for unknown label: '' @ label))),
                      EvUnlock]
                else []))"
proof -
  have e: "clogp_timer_end env now file line label st =
           clog_emit env CLOG_WARN file line (Some ''timer'')
             (Rendered (''end_time for unknown label: '' @ label)) st"
    using timer_end_unknown [OF wft nokey] .
  from clog_emit_frame [OF wfb, of env CLOG_WARN "file" "line" "Some ''timer''"
        "Rendered (''end_time for unknown label: '' @ label)"]
  show ?thesis unfolding e by (auto simp: clog_log_file_line_eq)
qed

text \<open>Ending a label that was never started, on the initial state.\<close>

theorem timer_end_unknown_label_witness:
  "list_all (\<lambda>s. \<not> (used s \<and> key s = clog_hash64 ''never started'')) (g_timers clog_init_state)
   \<and> (\<exists>st'. clogp_timer_end sample_env 5000 ''main.c'' 12 ''never started'' clog_init_state = Some st' \<and>
         g_timers st' = g_timers clog_init_state \<and>
         trace st' =
           [EvLock,
            EvWrite 2 (''2025-03-09 14:05:07.042 [WARN]'' @ [CHR 0x09] @
                       ''(tid:4242) <main.c:12> [timer] end_time for unknown label: never started'' @
                       [CHR 0x0A]),
            EvUnlock])"
proof -
  have nk: "\<forall>s \<in> set (g_timers clog_init_state). \<not> (used s \<and> key s = clog_hash64 ''never started'')"
    by (simp add: clog_init_state_def)
  have l: "emitted_line sample_env 2 CLOG_WARN ''main.c'' 12 (Some ''timer'')
             (Rendered ''end_time for unknown label: never started'')
           = ''2025-03-09 14:05:07.042 [WARN]'' @ [CHR 0x09] @
             ''(tid:4242) <main.c:12> [timer] end_time for unknown label: never started'' @ [CHR 0x0A]"
    by (simp add: emitted_line_def sample_prefix normalise_newline_def msg_text_def CLOG_LINE_MAX_def)
  from timer_end_unknown_label [OF init_facts(1) init_facts(2) nk, of sample_env 5000 "''main.c''" 12,
      THEN conjunct2]
  show ?thesis using nk by (simp add: init_facts l list_all_iff)
qed


lemma timer_end_at:
  assumes "clog_timer_find_slot st (clog_hash64 label) = int m"
  shows "clogp_timer_end env now file line label st =
           clog_emit env CLOG_DEBUG file line (Some ''timer'')
             (Rendered (timer_report env (now - t0 (g_timers st ! m)) label))
             (st\<lparr>g_timers := (g_timers st)[m := (g_timers st ! m)\<lparr>used := False\<rparr>]\<rparr>)"
  using assms
  by (simp add: clogp_timer_end_def Let_def clog_log_file_line_eq timer_report_def timer_tiers
      fmt_lu_def CLOG_TIMER_UNIT_US_def)

lemma find_slot_first:
  assumes m: "m < CLOG_TIMERS_MAX" "used (g_timers st ! m)" "key (g_timers st ! m) = k"
    and first: "\<forall>j < m. \<not> (used (g_timers st ! j) \<and> key (g_timers st ! j) = k)"
  shows "clog_timer_find_slot st k = int m"
proof -
  from find_slot_loop_spec [of "g_timers st" k 0]
  obtain m' where m': "clog_timer_find_slot_loop (g_timers st) k 0 = int m'" "m' < CLOG_TIMERS_MAX"
    "used (g_timers st ! m')" "key (g_timers st ! m') = k"
    "\<forall>j. 0 \<le> j \<and> j < m' \<longrightarrow> \<not> (used (g_timers st ! j) \<and> key (g_timers st ! j) = k)"
    using m by auto
  have "\<not> m < m'" using m'(5) m by auto
  moreover have "\<not> m' < m" using first m' by auto
  ultimately have "m' = m" by simp
  then show ?thesis using m'(1) by (simp add: clog_timer_find_slot_def)
qed

lemma slot_overwrite:
  "s\<lparr>key := k, t0 := t, used := u\<rparr> = \<lparr>key = k, t0 = t, used = u\<rparr>"
  by (cases s) simp

lemma timer_start_records:
  assumes wft: "length (g_timers st) = CLOG_TIMERS_MAX"
    and room: "\<exists>s \<in> set (g_timers st). \<not> used s \<or> key s = clog_hash64 label"
  shows "\<exists>m < CLOG_TIMERS_MAX.
           clogp_timer_start env now file line label st =
             Some (st\<lparr>g_timers := (g_timers st)[m := \<lparr>key = clog_hash64 label, t0 = now, used = True\<rparr>]\<rparr>) \<and>
           (\<forall>j < m. \<not> (used (g_timers st ! j) \<and> key (g_timers st ! j) = clog_hash64 label))"
proof (cases "\<exists>s \<in> set (g_timers st). used s \<and> key s = clog_hash64 label")
  case True
  obtain m where m: "m < CLOG_TIMERS_MAX" "clog_timer_find_slot st (clog_hash64 label) = int m"
    "\<forall>j < m. \<not> (used (g_timers st ! j) \<and> key (g_timers st ! j) = clog_hash64 label)"
    using find_slot_some [OF wft True] by blast
  have "clogp_timer_start env now file line label st =
             Some (st\<lparr>g_timers := (g_timers st)[m := \<lparr>key = clog_hash64 label, t0 = now, used = True\<rparr>]\<rparr>)"
    using m(2) by (simp add: clogp_timer_start_def Let_def slot_overwrite)
  with m show ?thesis by blast
next
  case False
  then have nokey: "\<forall>s \<in> set (g_timers st). \<not> (used s \<and> key s = clog_hash64 label)" by blast
  with room have free: "\<exists>s \<in> set (g_timers st). \<not> used s" by blast
  obtain m where m: "m < CLOG_TIMERS_MAX"
    "clogp_timer_start env now file line label st =
       Some (st\<lparr>g_timers := (g_timers st)[m := (g_timers st ! m)
                \<lparr>key := clog_hash64 label, t0 := now, used := True\<rparr>]\<rparr>)"
    using timer_start_fresh [OF wft nokey free] by blast
  have "clogp_timer_start env now file line label st =
             Some (st\<lparr>g_timers := (g_timers st)[m := \<lparr>key = clog_hash64 label, t0 = now, used = True\<rparr>]\<rparr>)"
    using m(2) by (simp add: slot_overwrite)
  moreover have "\<forall>j < m. \<not> (used (g_timers st ! j) \<and> key (g_timers st ! j) = clog_hash64 label)"
    using nokey wft m(1) by (metis less_trans nth_mem)
  ultimately show ?thesis using m(1) by blast
qed

lemma started_only_slot:
  assumes "i < CLOG_TIMERS_MAX" and "used (g_timers (sample_started_state label t) ! i)"
  shows "i = 0"
  using assms
  by (cases i) (simp_all add: sample_started_state_def clog_init_state_def CLOG_TIMERS_MAX_def)

lemma started_slot0:
  "g_timers (sample_started_state label t) ! 0 = \<lparr>key = clog_hash64 label, t0 = t, used = True\<rparr>"
  by (simp add: sample_started_state_def clog_init_state_def CLOG_TIMERS_MAX_def)

lemma started_held:
  "\<exists>s \<in> set (g_timers (sample_started_state label t)). used s \<and> key s = clog_hash64 label"
  using started_facts(6) [of label t] by (rule rev_bexI) simp

lemma dec_Suc0: "dec (Suc 0) = ''1''"
  by (simp add: dec.simps digit_char_def)

lemma replicate_2: "replicate 2 x = [x, x]"
  by (simp add: numeral_2_eq_2)

lemma sample_reports:
  "timer_report sample_env 999 ''some label'' = ''[999 ns]: some label''"
  "timer_report sample_env 1000 ''some label'' = ''[1.000 '' @ [CHR 0xC2, CHR 0xB5] @ ''s]: some label''"
  "timer_report sample_env 250 ''nosnarkapuebm'' = ''[250 ns]: nosnarkapuebm''"
  by (simp_all add: timer_report_def sample_env_def sample_printf_f_def fmt_0d_def dec_vals
      dec_Suc0 replicate_2)

lemma sample_collision: "clog_hash64 ''o0kgjeb1h21gg'' = clog_hash64 ''nosnarkapuebm''"
  by (simp add: clog_hash64_def)

text \<open>
  Claim C8. When an occupied slot holds the key of the label, \<open>clogp_timer_end_\<close> is a
  log call at \<open>CLOG_DEBUG\<close> with group \<open>timer\<close> whose message is
  \<open>[UNIT]: label\<close>, the unit chosen from the elapsed nanoseconds by the three
  boundaries: whole nanoseconds below 1000, microseconds with \<open>%.3f\<close> below 1000000,
  milliseconds with \<open>%.3f\<close> below 1000000000, seconds with \<open>%.6f\<close> otherwise. When
  the threshold admits \<open>CLOG_DEBUG\<close> that record is written.
\<close>

theorem timer_end_report:
  assumes wfb: "length (g_buf st) = CLOG_LINE_MAX" and wft: "length (g_timers st) = CLOG_TIMERS_MAX"
    and held: "\<exists>s \<in> set (g_timers st). used s \<and> key s = clog_hash64 label"
  shows "\<exists>i < CLOG_TIMERS_MAX. used (g_timers st ! i) \<and> key (g_timers st ! i) = clog_hash64 label \<and>
           clogp_timer_end env now file line label st =
             clog_log_file_line env CLOG_DEBUG file line (Some ''timer'')
               (Rendered (timer_report env (now - t0 (g_timers st ! i)) label))
               (st\<lparr>g_timers := (g_timers st)[i := (g_timers st ! i)\<lparr>used := False\<rparr>]\<rparr>) \<and>
           (g_lvl st \<le> level_int CLOG_DEBUG \<longrightarrow>
              map_option trace (clogp_timer_end env now file line label st) =
                Some (trace st @
                  [EvLock,
                   EvWrite (g_fd st)
                     (emitted_line env (g_fd st) CLOG_DEBUG file line (Some ''timer'')
                        (Rendered (timer_report env (now - t0 (g_timers st ! i)) label))),
                   EvUnlock]))"
proof -
  obtain m where m: "m < CLOG_TIMERS_MAX" "used (g_timers st ! m)"
    "key (g_timers st ! m) = clog_hash64 label"
    and e: "clogp_timer_end env now file line label st =
             clog_emit env CLOG_DEBUG file line (Some ''timer'')
               (Rendered (timer_report env (now - t0 (g_timers st ! m)) label))
               (st\<lparr>g_timers := (g_timers st)[m := (g_timers st ! m)\<lparr>used := False\<rparr>]\<rparr>)"
    using timer_end_found [OF wft held, of env now "file" "line"] by blast
  define st1 where "st1 = st\<lparr>g_timers := (g_timers st)[m := (g_timers st ! m)\<lparr>used := False\<rparr>]\<rparr>"
  have b1: "length (g_buf st1) = CLOG_LINE_MAX" using wfb by (simp add: st1_def)
  have t: "map_option trace (clogp_timer_end env now file line label st) =
                Some (trace st @
                  [EvLock,
                   EvWrite (g_fd st)
                     (emitted_line env (g_fd st) CLOG_DEBUG file line (Some ''timer'')
                        (Rendered (timer_report env (now - t0 (g_timers st ! m)) label))),
                   EvUnlock])"
    if "g_lvl st \<le> level_int CLOG_DEBUG"
  proof -
    have "g_lvl st1 \<le> level_int CLOG_DEBUG" using that by (simp add: st1_def)
    from clog_emit_trace [OF b1 this, of env "file" "line" "Some ''timer''"
        "Rendered (timer_report env (now - t0 (g_timers st ! m)) label)"]
    show ?thesis unfolding e st1_def [symmetric] by (simp add: st1_def)
  qed
  show ?thesis
    using m e t by (intro exI [of _ m]) (simp add: clog_log_file_line_eq)
qed

text \<open>
  The two sides of the first boundary: 999 ns is reported in nanoseconds, 1000 ns in
  microseconds.
\<close>

theorem timer_end_report_witness:
  "(\<exists>s \<in> set (g_timers (clog_set_level CLOG_DEBUG (sample_started_state ''some label'' 100))).
       used s \<and> key s = clog_hash64 ''some label'')
   \<and> map_option trace (clogp_timer_end sample_env 1099 ''main.c'' 12 ''some label''
                         (clog_set_level CLOG_DEBUG (sample_started_state ''some label'' 100)))
     = Some [EvLock,
             EvWrite 2 (''2025-03-09 14:05:07.042 [DEBUG]'' @ [CHR 0x09] @
                        ''(tid:4242) <main.c:12> [timer] [999 ns]: some label'' @ [CHR 0x0A]),
             EvUnlock]
   \<and> map_option trace (clogp_timer_end sample_env 1100 ''main.c'' 12 ''some label''
                         (clog_set_level CLOG_DEBUG (sample_started_state ''some label'' 100)))
     = Some [EvLock,
             EvWrite 2 (''2025-03-09 14:05:07.042 [DEBUG]'' @ [CHR 0x09] @
                        ''(tid:4242) <main.c:12> [timer] [1.000 '' @ [CHR 0xC2, CHR 0xB5] @
                        ''s]: some label'' @ [CHR 0x0A]),
             EvUnlock]"
proof -
  define st where "st = clog_set_level CLOG_DEBUG (sample_started_state ''some label'' 100)"
  have ts: "g_timers st = g_timers (sample_started_state ''some label'' 100)"
    and lv: "g_lvl st = 1" and fd: "g_fd st = 2" and tr: "trace st = []"
    by (simp_all add: st_def clog_set_level_def started_facts)
  have wfb: "length (g_buf st) = CLOG_LINE_MAX" and wft: "length (g_timers st) = CLOG_TIMERS_MAX"
    by (simp_all add: st_def clog_set_level_def started_facts)
  have held: "\<exists>s \<in> set (g_timers st). used s \<and> key s = clog_hash64 ''some label''"
    unfolding ts by (rule started_held)
  have l1: "emitted_line sample_env 2 CLOG_DEBUG ''main.c'' 12 (Some ''timer'')
              (Rendered ''[999 ns]: some label'')
            = ''2025-03-09 14:05:07.042 [DEBUG]'' @ [CHR 0x09] @
              ''(tid:4242) <main.c:12> [timer] [999 ns]: some label'' @ [CHR 0x0A]"
    by (simp add: emitted_line_def sample_prefix normalise_newline_def msg_text_def CLOG_LINE_MAX_def)
  have l2: "emitted_line sample_env 2 CLOG_DEBUG ''main.c'' 12 (Some ''timer'')
              (Rendered (''[1.000 '' @ [CHR 0xC2, CHR 0xB5] @ ''s]: some label''))
            = ''2025-03-09 14:05:07.042 [DEBUG]'' @ [CHR 0x09] @
              ''(tid:4242) <main.c:12> [timer] [1.000 '' @ [CHR 0xC2, CHR 0xB5] @
              ''s]: some label'' @ [CHR 0x0A]"
    by (simp add: emitted_line_def sample_prefix normalise_newline_def msg_text_def CLOG_LINE_MAX_def)
  have run: "map_option trace (clogp_timer_end sample_env now ''main.c'' 12 ''some label'' st)
       = Some [EvLock,
               EvWrite 2 (emitted_line sample_env 2 CLOG_DEBUG ''main.c'' 12 (Some ''timer'')
                            (Rendered (timer_report sample_env (now - 100) ''some label''))),
               EvUnlock]" for now
  proof -
    from timer_end_report [OF wfb wft held, of sample_env now "''main.c''" 12]
    obtain i where i: "i < CLOG_TIMERS_MAX" "used (g_timers st ! i)"
      and r: "g_lvl st \<le> level_int CLOG_DEBUG \<longrightarrow>
              map_option trace (clogp_timer_end sample_env now ''main.c'' 12 ''some label'' st) =
                Some (trace st @
                  [EvLock,
                   EvWrite (g_fd st)
                     (emitted_line sample_env (g_fd st) CLOG_DEBUG ''main.c'' 12 (Some ''timer'')
                        (Rendered (timer_report sample_env (now - t0 (g_timers st ! i)) ''some label''))),
                   EvUnlock])"
      by blast
    have "i = 0" using i started_only_slot unfolding ts by blast
    then have "t0 (g_timers st ! i) = 100" by (simp add: ts started_slot0)
    then show ?thesis using r by (simp add: lv fd tr)
  qed
  from run [of 1099] have a: "map_option trace (clogp_timer_end sample_env 1099 ''main.c'' 12 ''some label'' st)
     = Some [EvLock,
             EvWrite 2 (''2025-03-09 14:05:07.042 [DEBUG]'' @ [CHR 0x09] @
                        ''(tid:4242) <main.c:12> [timer] [999 ns]: some label'' @ [CHR 0x0A]),
             EvUnlock]"
    by (simp add: sample_reports l1)
  from run [of 1100] have b: "map_option trace (clogp_timer_end sample_env 1100 ''main.c'' 12 ''some label'' st)
     = Some [EvLock,
             EvWrite 2 (''2025-03-09 14:05:07.042 [DEBUG]'' @ [CHR 0x09] @
                        ''(tid:4242) <main.c:12> [timer] [1.000 '' @ [CHR 0xC2, CHR 0xB5] @
                        ''s]: some label'' @ [CHR 0x0A]),
             EvUnlock]"
    using l2 by (simp add: sample_reports)
  from held a b show ?thesis unfolding st_def by simp
qed

text \<open>
  Claim C9. Slots are matched by the hash of the label alone. For two distinct labels with
  the same hash, starting the first and then ending the second finds the slot the start
  wrote, frees it, and reports the time elapsed since the start of the first label under
  the text of the second; starting the second instead restarts the slot of the first, so
  the two labels share one slot.
\<close>

theorem timer_end_matches_hash_only:
  assumes wfb: "length (g_buf st) = CLOG_LINE_MAX" and wft: "length (g_timers st) = CLOG_TIMERS_MAX"
    and collide: "clog_hash64 l1 = clog_hash64 l2" and distinct: "l1 \<noteq> l2"
    and room: "\<exists>s \<in> set (g_timers st). \<not> used s \<or> key s = clog_hash64 l1"
  shows "\<exists>st1 i. clogp_timer_start env ta file line l1 st = Some st1 \<and>
           i < CLOG_TIMERS_MAX \<and>
           g_timers st1 = (g_timers st)[i := \<lparr>key = clog_hash64 l1, t0 = ta, used = True\<rparr>] \<and>
           clog_timer_find_slot st1 (clog_hash64 l2) = int i \<and>
           clogp_timer_end env tb file2 line2 l2 st1 =
             clog_log_file_line env CLOG_DEBUG file2 line2 (Some ''timer'')
               (Rendered (timer_report env (tb - ta) l2))
               (st1\<lparr>g_timers := (g_timers st1)[i := \<lparr>key = clog_hash64 l1, t0 = ta, used = False\<rparr>]\<rparr>) \<and>
           clogp_timer_start env tb file2 line2 l2 st1 =
             Some (st1\<lparr>g_timers := (g_timers st1)[i := \<lparr>key = clog_hash64 l1, t0 = tb, used = True\<rparr>]\<rparr>)"
proof -
  obtain m where m: "m < CLOG_TIMERS_MAX"
    and s: "clogp_timer_start env ta file line l1 st =
             Some (st\<lparr>g_timers := (g_timers st)[m := \<lparr>key = clog_hash64 l1, t0 = ta, used = True\<rparr>]\<rparr>)"
    and first: "\<forall>j < m. \<not> (used (g_timers st ! j) \<and> key (g_timers st ! j) = clog_hash64 l1)"
    using timer_start_records [OF wft room, of env ta "file" "line"] by blast
  define st1 where "st1 = st\<lparr>g_timers := (g_timers st)[m := \<lparr>key = clog_hash64 l1, t0 = ta, used = True\<rparr>]\<rparr>"
  have mlen: "m < length (g_timers st)" using m wft by simp
  have at: "g_timers st1 ! m = \<lparr>key = clog_hash64 l1, t0 = ta, used = True\<rparr>"
    using mlen by (simp add: st1_def)
  have before: "\<forall>j < m. \<not> (used (g_timers st1 ! j) \<and> key (g_timers st1 ! j) = clog_hash64 l2)"
    using first collide by (simp add: st1_def)
  have f: "clog_timer_find_slot st1 (clog_hash64 l2) = int m"
    using find_slot_first [OF m _ _ before] at collide by simp
  have upd: "(g_timers st1)[m := (g_timers st1 ! m)\<lparr>used := False\<rparr>]
               = (g_timers st1)[m := \<lparr>key = clog_hash64 l1, t0 = ta, used = False\<rparr>]"
    by (simp add: at)
  have "clogp_timer_end env tb file2 line2 l2 st1 =
             clog_log_file_line env CLOG_DEBUG file2 line2 (Some ''timer'')
               (Rendered (timer_report env (tb - ta) l2))
               (st1\<lparr>g_timers := (g_timers st1)[m := \<lparr>key = clog_hash64 l1, t0 = ta, used = False\<rparr>]\<rparr>)"
    using timer_end_at [OF f, of env tb file2 line2] at upd by (simp add: clog_log_file_line_eq)
  moreover have "clogp_timer_start env tb file2 line2 l2 st1 =
             Some (st1\<lparr>g_timers := (g_timers st1)[m := \<lparr>key = clog_hash64 l1, t0 = tb, used = True\<rparr>]\<rparr>)"
    using f collide by (simp add: clogp_timer_start_def Let_def slot_overwrite)
  ultimately show ?thesis
    using s m f unfolding st1_def [symmetric]
    by (intro exI [of _ st1] exI [of _ m]) (simp add: st1_def)
qed

text \<open>
  Two distinct labels that the hash of the header maps to the same key,
  3151253917790724329.
\<close>

theorem timer_end_matches_hash_only_witness:
  "clog_hash64 ''o0kgjeb1h21gg'' = clog_hash64 ''nosnarkapuebm''
   \<and> ''o0kgjeb1h21gg'' \<noteq> ''nosnarkapuebm''
   \<and> (\<exists>st1 i. clogp_timer_start sample_env 100 ''main.c'' 12 ''o0kgjeb1h21gg'' clog_init_state = Some st1 \<and>
         clog_timer_find_slot st1 (clog_hash64 ''nosnarkapuebm'') = int i \<and>
         clogp_timer_end sample_env 350 ''main.c'' 20 ''nosnarkapuebm'' st1 =
           clog_log_file_line sample_env CLOG_DEBUG ''main.c'' 20 (Some ''timer'')
             (Rendered ''[250 ns]: nosnarkapuebm'')
             (st1\<lparr>g_timers := (g_timers st1)
                     [i := \<lparr>key = clog_hash64 ''o0kgjeb1h21gg'', t0 = 100, used = False\<rparr>]\<rparr>))"
proof -
  have ne: "''o0kgjeb1h21gg'' \<noteq> ''nosnarkapuebm''" by simp
  have room: "\<exists>s \<in> set (g_timers clog_init_state). \<not> used s \<or> key s = clog_hash64 ''o0kgjeb1h21gg''"
    by (simp add: clog_init_state_def CLOG_TIMERS_MAX_def)
  have d: "(350 :: 64 word) - 100 = 250" by simp
  from timer_end_matches_hash_only [OF init_facts(1) init_facts(2) sample_collision ne room,
      of sample_env 100 "''main.c''" 12 350 "''main.c''" 20]
  show ?thesis using sample_collision ne by (auto simp: d sample_reports)
qed

text \<open>
  Claim C10. \<open>clogp_timer_end_\<close> marks the slot unused before the report goes through
  the emission gate: the slot is free afterwards and the free-slot scan finds a slot at or
  before it, also when the threshold is above \<open>CLOG_DEBUG\<close> and nothing is written;
  the resulting table is the same for every threshold.
\<close>

theorem timer_end_frees_slot:
  assumes wfb: "length (g_buf st) = CLOG_LINE_MAX" and wft: "length (g_timers st) = CLOG_TIMERS_MAX"
    and held: "\<exists>s \<in> set (g_timers st). used s \<and> key s = clog_hash64 label"
  shows "\<exists>st' i. clogp_timer_end env now file line label st = Some st' \<and>
           i < CLOG_TIMERS_MAX \<and> used (g_timers st ! i) \<and> key (g_timers st ! i) = clog_hash64 label \<and>
           g_timers st' = (g_timers st)[i := (g_timers st ! i)\<lparr>used := False\<rparr>] \<and>
           \<not> used (g_timers st' ! i) \<and>
           (\<exists>m \<le> i. clog_timer_free_slot st' = int m) \<and>
           (level_int CLOG_DEBUG < g_lvl st \<longrightarrow> trace st' = trace st \<and> g_buf st' = g_buf st) \<and>
           (\<forall>lv. map_option g_timers (clogp_timer_end env now file line label (st\<lparr>g_lvl := lv\<rparr>))
                   = Some (g_timers st'))"
proof -
  obtain m where m: "m < CLOG_TIMERS_MAX" "used (g_timers st ! m)"
    "key (g_timers st ! m) = clog_hash64 label"
    and f: "clog_timer_find_slot st (clog_hash64 label) = int m"
    using find_slot_some [OF wft held] by blast
  define ts1 where "ts1 = (g_timers st)[m := (g_timers st ! m)\<lparr>used := False\<rparr>]"
  have ends: "\<exists>st'. clogp_timer_end env now file line label (st\<lparr>g_lvl := lv\<rparr>) = Some st' \<and>
                g_timers st' = ts1 \<and> length (g_buf st') = CLOG_LINE_MAX \<and>
                (level_int CLOG_DEBUG < lv \<longrightarrow> trace st' = trace st \<and> g_buf st' = g_buf st)" for lv
  proof -
    have "clog_timer_find_slot (st\<lparr>g_lvl := lv\<rparr>) (clog_hash64 label) = int m"
      using f by (simp add: clog_timer_find_slot_def)
    from timer_end_at [OF this, of env now "file" "line"]
    have e: "clogp_timer_end env now file line label (st\<lparr>g_lvl := lv\<rparr>) =
           clog_emit env CLOG_DEBUG file line (Some ''timer'')
             (Rendered (timer_report env (now - t0 (g_timers st ! m)) label))
             (st\<lparr>g_lvl := lv, g_timers := ts1\<rparr>)"
      by (simp add: ts1_def)
    have "length (g_buf (st\<lparr>g_lvl := lv, g_timers := ts1\<rparr>)) = CLOG_LINE_MAX" using wfb by simp
    from clog_emit_frame [OF this, of env CLOG_DEBUG "file" "line" "Some ''timer''"
        "Rendered (timer_report env (now - t0 (g_timers st ! m)) label)"]
    obtain st' where
      a: "clog_emit env CLOG_DEBUG file line (Some ''timer'')
             (Rendered (timer_report env (now - t0 (g_timers st ! m)) label))
             (st\<lparr>g_lvl := lv, g_timers := ts1\<rparr>) = Some st'"
      and b: "g_timers st' = ts1" "length (g_buf st') = CLOG_LINE_MAX"
      and c: "level_int CLOG_DEBUG < lv \<longrightarrow> st' = st\<lparr>g_lvl := lv, g_timers := ts1\<rparr>"
      by auto
    have "trace st' = trace st \<and> g_buf st' = g_buf st" if "level_int CLOG_DEBUG < lv"
    proof -
      have "st' = st\<lparr>g_lvl := lv, g_timers := ts1\<rparr>" using c that by blast
      then show ?thesis by simp
    qed
    then show ?thesis using a b e by auto
  qed
  from ends [of "g_lvl st"] obtain st' where
    st': "clogp_timer_end env now file line label st = Some st'" "g_timers st' = ts1"
      "length (g_buf st') = CLOG_LINE_MAX"
      "level_int CLOG_DEBUG < g_lvl st \<longrightarrow> trace st' = trace st \<and> g_buf st' = g_buf st"
    by auto
  have mlen: "m < length (g_timers st)" using m(1) wft by simp
  have nu: "\<not> used (g_timers st' ! m)" using mlen by (simp add: st'(2) ts1_def)
  have wft': "length (g_timers st') = CLOG_TIMERS_MAX" using wft by (simp add: st'(2) ts1_def)
  have "\<exists>s \<in> set (g_timers st'). \<not> used s"
    using nu m(1) wft' by (metis nth_mem)
  from free_slot_some [OF wft' this]
  obtain q where q: "clog_timer_free_slot st' = int q" "\<forall>j < q. used (g_timers st' ! j)"
    by blast
  have "q \<le> m" using q(2) nu by (meson not_le)
  with q(1) have reuse: "\<exists>q \<le> m. clog_timer_free_slot st' = int q" by blast
  have indep: "map_option g_timers (clogp_timer_end env now file line label (st\<lparr>g_lvl := lv\<rparr>))
                   = Some (g_timers st')" for lv
    using ends [of lv] st'(2) by auto
  show ?thesis
    using st' m nu reuse indep unfolding ts1_def
    by (intro exI [of _ st'] exI [of _ m]) simp
qed

text \<open>At the default threshold \<open>CLOG_INFO\<close> the report is suppressed and the slot is freed.\<close>

theorem timer_end_frees_slot_witness:
  "(\<exists>s \<in> set (g_timers (sample_started_state ''some label'' 100)).
       used s \<and> key s = clog_hash64 ''some label'')
   \<and> (\<exists>st'. clogp_timer_end sample_env 1099 ''main.c'' 12 ''some label''
               (sample_started_state ''some label'' 100) = Some st' \<and>
         g_timers st' = (g_timers (sample_started_state ''some label'' 100))
                          [0 := \<lparr>key = clog_hash64 ''some label'', t0 = 100, used = False\<rparr>] \<and>
         clog_timer_free_slot st' = 0 \<and>
         trace st' = [] \<and> g_buf st' = g_buf clog_init_state)"
proof -
  define st where "st = sample_started_state ''some label'' 100"
  have wfb: "length (g_buf st) = CLOG_LINE_MAX" and wft: "length (g_timers st) = CLOG_TIMERS_MAX"
    and lv: "g_lvl st = 2" and tr: "trace st = []"
    by (simp_all add: st_def started_facts)
  have bf: "g_buf st = g_buf clog_init_state" by (simp add: st_def sample_started_state_def)
  have held: "\<exists>s \<in> set (g_timers st). used s \<and> key s = clog_hash64 ''some label''"
    unfolding st_def by (rule started_held)
  from timer_end_frees_slot [OF wfb wft held, of sample_env 1099 "''main.c''" 12]
  obtain st' i where e: "clogp_timer_end sample_env 1099 ''main.c'' 12 ''some label'' st = Some st'"
    and i: "i < CLOG_TIMERS_MAX" "used (g_timers st ! i)"
    and g: "g_timers st' = (g_timers st)[i := (g_timers st ! i)\<lparr>used := False\<rparr>]"
    and f: "\<exists>m \<le> i. clog_timer_free_slot st' = int m"
    and q: "level_int CLOG_DEBUG < g_lvl st \<longrightarrow> trace st' = trace st \<and> g_buf st' = g_buf st"
    by blast
  have i0: "i = 0" using i started_only_slot unfolding st_def by blast
  have "g_timers st' = (g_timers st)[0 := \<lparr>key = clog_hash64 ''some label'', t0 = 100, used = False\<rparr>]"
    using g i0 by (simp add: st_def started_slot0)
  moreover have "clog_timer_free_slot st' = 0" using f i0 by simp
  moreover have "trace st' = [] \<and> g_buf st' = g_buf clog_init_state"
    using q lv tr bf by simp
  ultimately show ?thesis using e held unfolding st_def by simp
qed

end
